theory Spec2Isabelle
  imports Complex_Main "HOL-Library.Sublist" "HOL-Library.AList"
begin

section \<open>Python values used by the chatbot\<close>

text \<open>
  The two variants of the chatbot, \<^verbatim>\<open>Chatbot/Demo2/chatbot.py\<close> (intents read from a JSON
  file) and \<^verbatim>\<open>Chatbot/Demo1/bot.py\<close> (intents written inline), are embedded function by
  function. Names without a prefix belong to Demo2; the functions of Demo1 that differ
  carry the prefix \<open>demo1_\<close>.

  Strings are lists of 8-bit characters and stand for ASCII text: \<open>str.lower\<close>,
  \<open>str.title\<close>, \<open>str.split\<close>, \<open>str.strip\<close> and the classes \<^verbatim>\<open>\d\<close> and \<^verbatim>\<open>\s\<close> are
  modelled on ASCII, where Python also knows the Unicode letters, digits and spaces.
  The score of an intent is a Python float built from \<open>0.0\<close> by adding \<open>2.0\<close>, \<open>0.5\<close>
  and \<open>1.0\<close> and by one multiplication with \<open>0.5\<close>: every such value is a multiple of
  \<open>1/4\<close> and is represented exactly by a double, so the model computes with rationals.
  The sentiment score is a quotient of two integers; the model keeps the exact quotient,
  of which the Python float is the nearest double.
\<close>

datatype py_exn =
    ReError
  | TypeError
  | AttributeError
  | IndexError
  | SyntaxError
  | ZeroDivisionError
  | OverflowError
  | OtherException

definition is_space :: "char \<Rightarrow> bool" where
  "is_space c = (let n = (of_char c :: nat) in (9 \<le> n \<and> n \<le> 13) \<or> (28 \<le> n \<and> n \<le> 32))"

definition is_digit :: "char \<Rightarrow> bool" where
  "is_digit c = (let n = (of_char c :: nat) in 48 \<le> n \<and> n \<le> 57)"

definition is_upper :: "char \<Rightarrow> bool" where
  "is_upper c = (let n = (of_char c :: nat) in 65 \<le> n \<and> n \<le> 90)"

definition is_lower :: "char \<Rightarrow> bool" where
  "is_lower c = (let n = (of_char c :: nat) in 97 \<le> n \<and> n \<le> 122)"

definition to_lower :: "char \<Rightarrow> char" where
  "to_lower c = (if is_upper c then char_of ((of_char c :: nat) + 32) else c)"

definition to_upper :: "char \<Rightarrow> char" where
  "to_upper c = (if is_lower c then char_of ((of_char c :: nat) - 32) else c)"

text \<open>\<open>str.lower()\<close>.\<close>

definition lower :: "string \<Rightarrow> string" where
  "lower s = map to_lower s"

text \<open>
  \<open>str.split()\<close> without arguments: the maximal runs of non-space characters, in order.
  The first argument is the word read so far.
\<close>

primrec split_acc :: "string \<Rightarrow> string \<Rightarrow> string list" where
  "split_acc w [] = (if w = [] then [] else [w])"
| "split_acc w (c # cs) =
     (if is_space c then (if w = [] then split_acc [] cs else w # split_acc [] cs)
      else split_acc (w @ [c]) cs)"

definition split :: "string \<Rightarrow> string list" where
  "split s = split_acc [] s"

text \<open>\<open>str.strip()\<close> without arguments.\<close>

definition strip :: "string \<Rightarrow> string" where
  "strip s = rev (dropWhile is_space (rev (dropWhile is_space s)))"

text \<open>
  \<open>str.title()\<close>: a letter that follows a letter is lowered, any other letter is raised.
  The flag says whether the previous character was a letter.
\<close>

primrec title_acc :: "bool \<Rightarrow> string \<Rightarrow> string" where
  "title_acc prev [] = []"
| "title_acc prev (c # cs) =
     (if is_upper c \<or> is_lower c
      then (if prev then to_lower c else to_upper c) # title_acc True cs
      else c # title_acc False cs)"

definition title :: "string \<Rightarrow> string" where
  "title s = title_acc False s"

text \<open>
  \<open>str.replace(old, new)\<close>: every occurrence of \<open>old\<close>, found from the left and not
  overlapping, becomes \<open>new\<close>. The counter is the number of characters of the current
  occurrence still to be skipped. (The keys replaced by the chatbot are never empty; for
  an empty \<open>old\<close> the input is returned as it is, which is not what Python does.)
\<close>

primrec replace_skip :: "string \<Rightarrow> string \<Rightarrow> nat \<Rightarrow> string \<Rightarrow> string" where
  "replace_skip old new k [] = []"
| "replace_skip old new k (c # cs) =
     (case k of
        Suc j \<Rightarrow> replace_skip old new j cs
      | 0 \<Rightarrow> (if old \<noteq> [] \<and> prefix old (c # cs)
              then new @ replace_skip old new (length old - 1) cs
              else c # replace_skip old new 0 cs))"

definition replace :: "string \<Rightarrow> string \<Rightarrow> string \<Rightarrow> string" where
  "replace s old new = replace_skip old new 0 s"

subsection \<open>Regular expressions\<close>

text \<open>
  A match object of the module \<open>re\<close>: the pattern it came from (\<open>m.re.pattern\<close>), the
  whole match \<open>m.group(0)\<close>, the capture groups \<open>m.group(1)\<close>, ... (\<open>None\<close> for a group
  that took no part in the match) and \<open>m.lastindex\<close>.
\<close>

record pymatch =
  re_pattern :: string
  group0 :: string
  groups :: "string option list"
  lastindex :: "nat option"

text \<open>\<open>m.group(n)\<close>; a group the pattern does not have raises IndexError.\<close>

definition group :: "pymatch \<Rightarrow> nat \<Rightarrow> py_exn + string option" where
  "group m n =
     (if n = 0 then Inr (Some (group0 m))
      else if n \<le> length (groups m) then Inr (groups m ! (n - 1))
      else Inl IndexError)"

text \<open>
  \<open>re.search(pattern, text, re.IGNORECASE)\<close> belongs to Python's library, so the functions
  of the chatbot take it as a parameter: \<open>Inr None\<close> when nothing matches, \<open>Inr (Some m)\<close>
  for a match, \<open>Inl e\<close> when the call raises the exception \<open>e\<close>. A pattern that does not
  compile raises \<open>re.error\<close> as a rule, here \<open>Inl ReError\<close>, and this is the one exception
  the handlers of Demo2 name. The compiler of \<open>re\<close> raises other exceptions as well,
  OverflowError for a repeat count beyond its limit and RecursionError for a pattern
  nested too deep; these are not \<open>re.error\<close>, and no handler of the chatbot catches them.
  A match object is always true as a condition.
\<close>

type_synonym re_search = "string \<Rightarrow> string \<Rightarrow> py_exn + pymatch option"

section \<open>Data model\<close>

text \<open>
  The field \<open>action\<close> of an intent holds a function. In Demo2 \<open>_build_intents\<close> chooses
  it from the \<open>action_type\<close> of the configuration, one factory per type; in Demo1 it is
  a lambda written in the catalog: the one of the intent \<open>user_name\<close> is \<open>Demo1UserName\<close>,
  the one of \<open>calculate\<close> calls \<open>_calculate\<close> as the factory of Demo2 does.
\<close>

datatype action =
    StoreName
  | Calculate
  | StoreBirthday
  | SaveNote
  | ShowNotes
  | StoreFavorites
  | Demo1UserName

record intent =
  name :: string
  patterns :: "string list"
  responses :: "string list"
  keyword_list :: "string list"
  context_set :: "string option"
  context_required :: "string option"
  action :: "action option"

text \<open>The values kept in \<open>user_data\<close>: strings, the list of notes, the favorites.\<close>

datatype pyval =
    Str string
  | StrList "string list"
  | StrDict "(string \<times> string) list"

text \<open>
  \<open>ConversationContext\<close>. The dictionary \<open>user_data\<close> is an association list in the order
  of insertion. The field \<open>context_writes\<close> is not in the source: it counts the
  assignments to \<open>current_context\<close> made by \<open>set_context\<close> and \<open>clear_context\<close>, the only
  two methods that assign it after construction. \<open>session_start\<close> is left out; only the
  statistics printed by the chat loop read it.
\<close>

record exchange =
  timestamp :: string
  user :: string
  bot :: string

record conversation_context =
  history :: "exchange list"
  current_context :: "string option"
  user_data :: "(string \<times> pyval) list"
  context_writes :: nat

definition new_context :: conversation_context where
  "new_context = \<lparr>history = [], current_context = None, user_data = [],
                   context_writes = 0\<rparr>"

definition add_exchange :: "string \<Rightarrow> string \<Rightarrow> string \<Rightarrow> conversation_context \<Rightarrow> conversation_context" where
  "add_exchange now_iso user_input bot_response c =
     c\<lparr>history := history c @ [\<lparr>timestamp = now_iso, user = user_input, bot = bot_response\<rparr>]\<rparr>"

definition set_context :: "string \<Rightarrow> conversation_context \<Rightarrow> conversation_context" where
  "set_context tag c = c\<lparr>current_context := Some tag, context_writes := Suc (context_writes c)\<rparr>"

definition clear_context :: "conversation_context \<Rightarrow> conversation_context" where
  "clear_context c = c\<lparr>current_context := None, context_writes := Suc (context_writes c)\<rparr>"

definition set_user_data :: "string \<Rightarrow> pyval \<Rightarrow> conversation_context \<Rightarrow> conversation_context" where
  "set_user_data key v c = c\<lparr>user_data := AList.update key v (user_data c)\<rparr>"

definition get_user_data :: "conversation_context \<Rightarrow> string \<Rightarrow> pyval option" where
  "get_user_data c key = map_of (user_data c) key"

text \<open>
  \<open>AdvancedChatbot\<close>: its name, the catalog, the conversation and the three lists of
  default answers (\<open>unknown_responses\<close>, by sentiment).
\<close>

record chatbot =
  bot_name :: string
  intents :: "intent list"
  ctx :: conversation_context
  unknown_positive :: "string list"
  unknown_negative :: "string list"
  unknown_neutral :: "string list"

text \<open>The truth value Python gives an optional string: \<open>None\<close> and \<open>""\<close> are false.\<close>

definition truthy :: "string option \<Rightarrow> bool" where
  "truthy v = (case v of None \<Rightarrow> False | Some s \<Rightarrow> s \<noteq> [])"

section \<open>Intent scorer\<close>

text \<open>
  \<open>_score_intent\<close> of Demo2. The loop over the patterns adds \<open>2.0\<close> for a match and goes
  on after \<open>re.error\<close>, the one exception its handler names; any other exception leaves
  the function. The loop over the keywords adds \<open>0.5\<close> for every entry of the list whose
  lower-case form is one of the words of the text.
\<close>

primrec score_patterns :: "re_search \<Rightarrow> string \<Rightarrow> rat \<Rightarrow> string list \<Rightarrow> py_exn + rat" where
  "score_patterns search text_lower score [] = Inr score"
| "score_patterns search text_lower score (pattern # ps) =
     (case search pattern text_lower of
        Inr (Some m) \<Rightarrow> score_patterns search text_lower (score + 2) ps
      | Inr None \<Rightarrow> score_patterns search text_lower score ps
      | Inl e \<Rightarrow>
          if e = ReError then score_patterns search text_lower score ps else Inl e)"

primrec score_keywords :: "string set \<Rightarrow> rat \<Rightarrow> string list \<Rightarrow> rat" where
  "score_keywords text_words score [] = score"
| "score_keywords text_words score (keyword # ks) =
     (if lower keyword \<in> text_words
      then score_keywords text_words (score + 1/2) ks
      else score_keywords text_words score ks)"

definition score_context :: "string option \<Rightarrow> string option \<Rightarrow> rat \<Rightarrow> rat" where
  "score_context required current score =
     (if truthy required
      then (if current = required then score + 1 else score * (1/2))
      else score)"

definition score_intent :: "re_search \<Rightarrow> chatbot \<Rightarrow> intent \<Rightarrow> string \<Rightarrow> py_exn + rat" where
  "score_intent search self i text =
     (let text_lower = lower text
      in case score_patterns search text_lower 0 (patterns i) of
           Inl e \<Rightarrow> Inl e
         | Inr score \<Rightarrow>
             (let text_words = set (split text_lower);
                  score = score_keywords text_words score (keyword_list i)
              in Inr (score_context (context_required i) (current_context (ctx self)) score)))"

text \<open>
  \<open>_score_intent\<close> of Demo1: no handler around \<open>re.search\<close>, so every exception, \<open>re.error\<close>
  too, leaves the function; the keywords are counted as the size of the intersection of
  two sets, not lowered.
\<close>

primrec demo1_score_patterns :: "re_search \<Rightarrow> string \<Rightarrow> rat \<Rightarrow> string list \<Rightarrow> py_exn + rat" where
  "demo1_score_patterns search text_lower score [] = Inr score"
| "demo1_score_patterns search text_lower score (pattern # ps) =
     (case search pattern text_lower of
        Inr (Some m) \<Rightarrow> demo1_score_patterns search text_lower (score + 2) ps
      | Inr None \<Rightarrow> demo1_score_patterns search text_lower score ps
      | Inl e \<Rightarrow> Inl e)"

definition demo1_score_intent :: "re_search \<Rightarrow> chatbot \<Rightarrow> intent \<Rightarrow> string \<Rightarrow> py_exn + rat" where
  "demo1_score_intent search self i text =
     (let text_lower = lower text
      in case demo1_score_patterns search text_lower 0 (patterns i) of
           Inl e \<Rightarrow> Inl e
         | Inr score \<Rightarrow>
             (let words = set (split text_lower);
                  keyword_matches = card (words \<inter> set (keyword_list i));
                  score = score + of_nat keyword_matches * (1/2)
              in Inr (score_context (context_required i) (current_context (ctx self)) score)))"

section \<open>Intent classifier\<close>

text \<open>
  The inner loop of \<open>classify_intent\<close> of Demo2: the first pattern of the intent that
  matches. A pattern on which the search raises \<open>re.error\<close> is passed over; any other
  exception leaves the loop and the method.
\<close>

primrec first_match :: "re_search \<Rightarrow> string \<Rightarrow> string list \<Rightarrow> py_exn + pymatch option" where
  "first_match search text_lower [] = Inr None"
| "first_match search text_lower (pattern # ps) =
     (case search pattern text_lower of
        Inr (Some m) \<Rightarrow> Inr (Some m)
      | Inr None \<Rightarrow> first_match search text_lower ps
      | Inl e \<Rightarrow> if e = ReError then first_match search text_lower ps else Inl e)"

text \<open>The three variables of the loop: \<open>best_intent\<close>, \<open>best_score\<close>, \<open>best_match\<close>.\<close>

type_synonym best = "intent option \<times> rat \<times> pymatch option"

definition classify_step :: "re_search \<Rightarrow> chatbot \<Rightarrow> string \<Rightarrow> best \<Rightarrow> intent \<Rightarrow> py_exn + best" where
  "classify_step search self text b i =
     (case b of (best_intent, best_score, best_match) \<Rightarrow>
        (case score_intent search self i text of
           Inl e \<Rightarrow> Inl e
         | Inr score \<Rightarrow>
             if score > best_score
             then (case first_match search (lower text) (patterns i) of
                     Inl e \<Rightarrow> Inl e
                   | Inr (Some m) \<Rightarrow> Inr (Some i, score, Some m)
                   | Inr None \<Rightarrow> Inr (Some i, score, best_match))
             else Inr (best_intent, best_score, best_match)))"

primrec classify_loop :: "re_search \<Rightarrow> chatbot \<Rightarrow> string \<Rightarrow> best \<Rightarrow> intent list \<Rightarrow> py_exn + best" where
  "classify_loop search self text b [] = Inr b"
| "classify_loop search self text b (i # is) =
     (case classify_step search self text b i of
        Inl e \<Rightarrow> Inl e
      | Inr b' \<Rightarrow> classify_loop search self text b' is)"

definition classify_intent ::
  "re_search \<Rightarrow> chatbot \<Rightarrow> string \<Rightarrow> py_exn + (intent option \<times> pymatch option)" where
  "classify_intent search self text =
     (case classify_loop search self text (None, 0, None) (intents self) of
        Inl e \<Rightarrow> Inl e
      | Inr (best_intent, best_score, best_match) \<Rightarrow>
          if best_score > 1/2 then Inr (best_intent, best_match) else Inr (None, None))"

text \<open>\<open>classify_intent\<close> of Demo1: the same loops without the handlers.\<close>

primrec demo1_first_match :: "re_search \<Rightarrow> string \<Rightarrow> string list \<Rightarrow> py_exn + pymatch option" where
  "demo1_first_match search text_lower [] = Inr None"
| "demo1_first_match search text_lower (pattern # ps) =
     (case search pattern text_lower of
        Inr (Some m) \<Rightarrow> Inr (Some m)
      | Inr None \<Rightarrow> demo1_first_match search text_lower ps
      | Inl e \<Rightarrow> Inl e)"

definition demo1_classify_step :: "re_search \<Rightarrow> chatbot \<Rightarrow> string \<Rightarrow> best \<Rightarrow> intent \<Rightarrow> py_exn + best" where
  "demo1_classify_step search self text b i =
     (case b of (best_intent, best_score, best_match) \<Rightarrow>
        (case demo1_score_intent search self i text of
           Inl e \<Rightarrow> Inl e
         | Inr score \<Rightarrow>
             if score > best_score
             then (case demo1_first_match search (lower text) (patterns i) of
                     Inl e \<Rightarrow> Inl e
                   | Inr (Some m) \<Rightarrow> Inr (Some i, score, Some m)
                   | Inr None \<Rightarrow> Inr (Some i, score, best_match))
             else Inr (best_intent, best_score, best_match)))"

primrec demo1_classify_loop :: "re_search \<Rightarrow> chatbot \<Rightarrow> string \<Rightarrow> best \<Rightarrow> intent list \<Rightarrow> py_exn + best" where
  "demo1_classify_loop search self text b [] = Inr b"
| "demo1_classify_loop search self text b (i # is) =
     (case demo1_classify_step search self text b i of
        Inl e \<Rightarrow> Inl e
      | Inr b' \<Rightarrow> demo1_classify_loop search self text b' is)"

definition demo1_classify_intent ::
  "re_search \<Rightarrow> chatbot \<Rightarrow> string \<Rightarrow> py_exn + (intent option \<times> pymatch option)" where
  "demo1_classify_intent search self text =
     (case demo1_classify_loop search self text (None, 0, None) (intents self) of
        Inl e \<Rightarrow> Inl e
      | Inr (best_intent, best_score, best_match) \<Rightarrow>
          if best_score > 1/2 then Inr (best_intent, best_match) else Inr (None, None))"

section \<open>Sentiment estimator\<close>

text \<open>
  The two word sets are attributes of the class \<open>SentimentAnalyzer\<close>: Demo2 loads them from
  the configuration, Demo1 writes them down.
\<close>

record sentiment_analyzer =
  POSITIVE_WORDS :: "string set"
  NEGATIVE_WORDS :: "string set"

record sentiment_result =
  sentiment :: string
  score :: rat

definition analyze :: "sentiment_analyzer \<Rightarrow> string \<Rightarrow> sentiment_result" where
  "analyze cls text =
     (let words = set (split (lower text));
          positive_count = card (words \<inter> POSITIVE_WORDS cls);
          negative_count = card (words \<inter> NEGATIVE_WORDS cls)
      in if positive_count > negative_count
         then \<lparr>sentiment = ''positive'',
               score = of_nat positive_count / of_nat (positive_count + negative_count + 1)\<rparr>
         else if negative_count > positive_count
         then \<lparr>sentiment = ''negative'',
               score = - of_nat negative_count / of_nat (positive_count + negative_count + 1)\<rparr>
         else \<lparr>sentiment = ''neutral'', score = 0\<rparr>)"

definition demo1_SentimentAnalyzer :: sentiment_analyzer where
  "demo1_SentimentAnalyzer =
     \<lparr>POSITIVE_WORDS = set [''good'', ''great'', ''awesome'', ''excellent'', ''happy'', ''love'',
        ''wonderful'', ''fantastic'', ''amazing'', ''best'', ''nice'', ''thank'', ''thanks'',
        ''perfect'', ''beautiful'', ''brilliant'', ''exciting'', ''fun'', ''glad'', ''pleased''],
      NEGATIVE_WORDS = set [''bad'', ''terrible'', ''awful'', ''horrible'', ''sad'', ''hate'',
        ''worst'', ''angry'', ''upset'', ''annoyed'', ''frustrated'', ''disappointed'', ''boring'',
        ''stupid'', ''dumb'', ''useless'', ''wrong'', ''fail'', ''failed'', ''problem'']\<rparr>"

section \<open>Arithmetic action\<close>

text \<open>
  \<open>re.sub(r"[^\d\+\-\*\/\.\(\)\s]", "", expression)\<close> deletes every character outside the
  class: digits, the four operators, the point, the parentheses and white space stay.
\<close>

definition keep_char :: "char \<Rightarrow> bool" where
  "keep_char c = (is_digit c \<or> c \<in> set ''+-*/.()'' \<or> is_space c)"

definition sanitize :: "string \<Rightarrow> string" where
  "sanitize expression = filter keep_char expression"

definition apology :: string where
  "apology = ''I couldn't calculate that. Please use a format like '5 + 3' or '10 * 2'.''"

text \<open>
  Python's \<open>eval\<close> is a parameter: \<open>py_eval e\<close> is \<open>Inr\<close> of the result of \<open>eval(e)\<close> as the
  f-string prints it, or \<open>Inl\<close> of the exception that evaluating or printing raised (on
  the characters left by the sanitizer every such exception is caught by
  \<open>except Exception\<close>). An evaluation that does not come back, as that of a tower of
  powers may not, has no value here.
  \<open>calculate_try\<close> is the body of the \<open>try\<close> of \<open>_calculate\<close>: with no match object the
  attribute \<open>lastindex\<close> of \<open>None\<close> is read, and a group that took no part in the match
  gives \<open>None\<close> to \<open>re.sub\<close>.
\<close>

type_synonym py_eval = "string \<Rightarrow> py_exn + string"

definition lastindex_truthy :: "pymatch \<Rightarrow> bool" where
  "lastindex_truthy m = (case lastindex m of None \<Rightarrow> False | Some n \<Rightarrow> n \<noteq> 0)"

definition calculate_try :: "py_eval \<Rightarrow> pymatch option \<Rightarrow> py_exn + string" where
  "calculate_try ev match =
     (case match of
        None \<Rightarrow> Inl AttributeError
      | Some m \<Rightarrow>
          (case (if lastindex_truthy m then group m 1 else group m 0) of
             Inl e \<Rightarrow> Inl e
           | Inr None \<Rightarrow> Inl TypeError
           | Inr (Some expression) \<Rightarrow>
               (let expression = sanitize expression
                in case ev expression of
                     Inl e \<Rightarrow> Inl e
                   | Inr result \<Rightarrow>
                       Inr (''The result of '' @ expression @ '' is **'' @ result @ ''**''))))"

text \<open>\<open>_calculate\<close>: the \<open>try\<close> with its \<open>except Exception\<close>.\<close>

definition calculate :: "py_eval \<Rightarrow> pymatch option \<Rightarrow> string" where
  "calculate ev match = (case calculate_try ev match of Inr s \<Rightarrow> s | Inl e \<Rightarrow> apology)"

section \<open>Template filler\<close>

text \<open>
  The clock: the fields of \<open>datetime.now()\<close> that the two formats read; \<open>weekday\<close> counts
  from Monday = 0 as \<open>datetime.weekday()\<close> does.
\<close>

record datetime =
  year :: nat
  month :: nat
  day :: nat
  hour :: nat
  minute :: nat
  weekday :: nat

fun string_of_nat :: "nat \<Rightarrow> string" where
  "string_of_nat n =
     (if n < 10 then [char_of (48 + n)]
      else string_of_nat (n div 10) @ [char_of (48 + n mod 10)])"

definition two_digits :: "nat \<Rightarrow> string" where
  "two_digits n = (if n < 10 then ''0'' @ string_of_nat n else string_of_nat n)"

definition weekday_names :: "string list" where
  "weekday_names = [''Monday'', ''Tuesday'', ''Wednesday'', ''Thursday'', ''Friday'',
                    ''Saturday'', ''Sunday'']"

definition month_names :: "string list" where
  "month_names = [''January'', ''February'', ''March'', ''April'', ''May'', ''June'', ''July'',
                  ''August'', ''September'', ''October'', ''November'', ''December'']"

text \<open>\<open>strftime("%I:%M %p")\<close> and \<open>strftime("%A, %B %d, %Y")\<close> in the C locale.\<close>

definition strftime_time :: "datetime \<Rightarrow> string" where
  "strftime_time now =
     two_digits (if hour now mod 12 = 0 then 12 else hour now mod 12) @ '':'' @
     two_digits (minute now) @ '' '' @ (if hour now < 12 then ''AM'' else ''PM'')"

definition strftime_date :: "datetime \<Rightarrow> string" where
  "strftime_date now =
     weekday_names ! (weekday now mod 7) @ '', '' @ month_names ! ((month now - 1) mod 12) @
     '' '' @ two_digits (day now) @ '', '' @ string_of_nat (year now)"

text \<open>\<open>dict.get(key, default)\<close> on \<open>user_data\<close>.\<close>

definition get_user_data_default :: "conversation_context \<Rightarrow> string \<Rightarrow> pyval \<Rightarrow> pyval" where
  "get_user_data_default c key dflt =
     (case map_of (user_data c) key of Some v \<Rightarrow> v | None \<Rightarrow> dflt)"

text \<open>
  The loop of \<open>_fill_template\<close> over the dictionary \<open>replacements\<close>, in the order in which
  the keys are written; \<open>str.replace\<close> raises TypeError for a value that is not a string.
\<close>

primrec fill_loop :: "string \<Rightarrow> (string \<times> pyval) list \<Rightarrow> py_exn + string" where
  "fill_loop response [] = Inr response"
| "fill_loop response (kv # rest) =
     (case snd kv of
        Str v \<Rightarrow> fill_loop (replace response (fst kv) v) rest
      | StrList xs \<Rightarrow> Inl TypeError
      | StrDict d \<Rightarrow> Inl TypeError)"

definition replacements :: "chatbot \<Rightarrow> datetime \<Rightarrow> (string \<times> pyval) list" where
  "replacements self now =
     [(''{bot_name}'', Str (bot_name self)),
      (''{user_name}'', get_user_data_default (ctx self) ''name'' (Str ''friend'')),
      (''{current_time}'', Str (strftime_time now)),
      (''{current_date}'', Str (strftime_date now)),
      (''{user_birthday}'', get_user_data_default (ctx self) ''birthday'' (Str ''unknown''))]"

definition fill_template :: "chatbot \<Rightarrow> datetime \<Rightarrow> string \<Rightarrow> py_exn + string" where
  "fill_template self now response = fill_loop response (replacements self now)"

text \<open>\<open>_fill_template\<close> of Demo1 knows four placeholders.\<close>

definition demo1_replacements :: "chatbot \<Rightarrow> datetime \<Rightarrow> (string \<times> pyval) list" where
  "demo1_replacements self now =
     [(''{bot_name}'', Str (bot_name self)),
      (''{user_name}'', get_user_data_default (ctx self) ''name'' (Str ''friend'')),
      (''{current_time}'', Str (strftime_time now)),
      (''{current_date}'', Str (strftime_date now))]"

definition demo1_fill_template :: "chatbot \<Rightarrow> datetime \<Rightarrow> string \<Rightarrow> py_exn + string" where
  "demo1_fill_template self now response = fill_loop response (demo1_replacements self now)"

section \<open>Action dispatcher\<close>

text \<open>
  An action receives the chatbot and the match object (or \<open>None\<close>) and returns a string or
  \<open>None\<close>; it may change \<open>user_data\<close>, and it may raise.
\<close>

type_synonym action_result = "py_exn + (string option \<times> chatbot)"

definition put_user_data :: "string \<Rightarrow> pyval \<Rightarrow> chatbot \<Rightarrow> chatbot" where
  "put_user_data key v chatbot = chatbot\<lparr>ctx := set_user_data key v (ctx chatbot)\<rparr>"

text \<open>The comparison \<open>match.lastindex >= k\<close>: ordering \<open>None\<close> against a number is a TypeError.\<close>

definition lastindex_ge :: "pymatch \<Rightarrow> nat \<Rightarrow> py_exn + bool" where
  "lastindex_ge m k = (case lastindex m of None \<Rightarrow> Inl TypeError | Some n \<Rightarrow> Inr (n \<ge> k))"

text \<open>\<open>match.group(n)\<close> followed by a method call on the result, which \<open>None\<close> does not have.\<close>

definition group_str :: "pymatch \<Rightarrow> nat \<Rightarrow> py_exn + string" where
  "group_str m n =
     (case group m n of
        Inl e \<Rightarrow> Inl e
      | Inr None \<Rightarrow> Inl AttributeError
      | Inr (Some g) \<Rightarrow> Inr g)"

definition store_name_action :: "chatbot \<Rightarrow> pymatch option \<Rightarrow> action_result" where
  "store_name_action chatbot match =
     (case match of
        None \<Rightarrow> Inr (None, chatbot)
      | Some m \<Rightarrow>
          if lastindex_truthy m
          then (case lastindex_ge m 1 of
                  Inl e \<Rightarrow> Inl e
                | Inr False \<Rightarrow> Inr (None, chatbot)
                | Inr True \<Rightarrow>
                    (case group_str m 1 of
                       Inl e \<Rightarrow> Inl e
                     | Inr g \<Rightarrow> Inr (None, put_user_data ''name'' (Str (title g)) chatbot)))
          else Inr (None, chatbot))"

definition store_birthday_action :: "chatbot \<Rightarrow> pymatch option \<Rightarrow> action_result" where
  "store_birthday_action chatbot match =
     (case match of
        None \<Rightarrow> Inr (None, chatbot)
      | Some m \<Rightarrow>
          (case lastindex_ge m 1 of
             Inl e \<Rightarrow> Inl e
           | Inr False \<Rightarrow> Inr (None, chatbot)
           | Inr True \<Rightarrow>
               (case group_str m 1 of
                  Inl e \<Rightarrow> Inl e
                | Inr g \<Rightarrow> Inr (None, put_user_data ''birthday'' (Str (strip g)) chatbot))))"

text \<open>The truth value of a stored value: empty strings, lists and dictionaries are false.\<close>

definition pyval_truthy :: "pyval \<Rightarrow> bool" where
  "pyval_truthy v = (case v of Str s \<Rightarrow> s \<noteq> [] | StrList xs \<Rightarrow> xs \<noteq> [] | StrDict d \<Rightarrow> d \<noteq> [])"

text \<open>\<open>chatbot.context.get_user_data("notes") or []\<close>.\<close>

definition notes_or_empty :: "chatbot \<Rightarrow> pyval" where
  "notes_or_empty chatbot =
     (case get_user_data (ctx chatbot) ''notes'' of
        None \<Rightarrow> StrList []
      | Some v \<Rightarrow> if pyval_truthy v then v else StrList [])"

definition save_note_action :: "chatbot \<Rightarrow> pymatch option \<Rightarrow> action_result" where
  "save_note_action chatbot match =
     (case match of
        None \<Rightarrow> Inr (None, chatbot)
      | Some m \<Rightarrow>
          (case lastindex_ge m 1 of
             Inl e \<Rightarrow> Inl e
           | Inr False \<Rightarrow> Inr (None, chatbot)
           | Inr True \<Rightarrow>
               (case group_str m 1 of
                  Inl e \<Rightarrow> Inl e
                | Inr g \<Rightarrow>
                    (case notes_or_empty chatbot of
                       StrList notes \<Rightarrow>
                         Inr (None, put_user_data ''notes'' (StrList (notes @ [strip g])) chatbot)
                     | Str s \<Rightarrow> Inl AttributeError
                     | StrDict d \<Rightarrow> Inl AttributeError))))"

text \<open>What \<open>enumerate\<close> walks through: the notes; for a string its characters, for a dictionary its keys.\<close>

definition iter_items :: "pyval \<Rightarrow> string list" where
  "iter_items v = (case v of StrList xs \<Rightarrow> xs | Str s \<Rightarrow> map (\<lambda>c. [c]) s | StrDict d \<Rightarrow> map fst d)"

primrec join :: "string \<Rightarrow> string list \<Rightarrow> string" where
  "join sep [] = []"
| "join sep (x # xs) = (if xs = [] then x else x @ sep @ join sep xs)"

definition numbered :: "string list \<Rightarrow> string list" where
  "numbered notes = map (\<lambda>(i, note). string_of_nat (i + 1) @ ''. '' @ note) (enumerate 0 notes)"

definition show_notes_action :: "chatbot \<Rightarrow> pymatch option \<Rightarrow> action_result" where
  "show_notes_action chatbot match =
     (case get_user_data (ctx chatbot) ''notes'' of
        None \<Rightarrow> Inr (Some ''You don't have any saved notes yet.'', chatbot)
      | Some notes \<Rightarrow>
          if \<not> pyval_truthy notes
          then Inr (Some ''You don't have any saved notes yet.'', chatbot)
          else Inr (Some (''Here are your saved notes:'' @ [CHR 0x0A] @
                          join [CHR 0x0A] (numbered (iter_items notes))), chatbot))"

text \<open>
  The method \<open>store_favorites\<close>: item assignment on the stored dictionary (a TypeError on
  a string or a list), \<open>band\<close> filed under \<open>music\<close>.
\<close>

definition store_favorites :: "chatbot \<Rightarrow> string \<Rightarrow> string \<Rightarrow> py_exn + chatbot" where
  "store_favorites self favorite_type favorite_value =
     (case get_user_data_default (ctx self) ''favorites'' (StrDict []) of
        StrDict favorites \<Rightarrow>
          (let favorite_type = (if favorite_type = ''band'' then ''music'' else favorite_type);
               favorites = AList.update favorite_type favorite_value favorites
           in Inr (put_user_data (''favorite_'' @ favorite_type) (Str favorite_value)
                     (put_user_data ''favorites'' (StrDict favorites) self)))
      | Str s \<Rightarrow> Inl TypeError
      | StrList xs \<Rightarrow> Inl TypeError)"

definition store_favorites_action :: "chatbot \<Rightarrow> pymatch option \<Rightarrow> action_result" where
  "store_favorites_action chatbot match =
     (case match of
        None \<Rightarrow> Inr (None, chatbot)
      | Some m \<Rightarrow>
          (case lastindex_ge m 2 of
             Inl e \<Rightarrow> Inl e
           | Inr False \<Rightarrow> Inr (None, chatbot)
           | Inr True \<Rightarrow>
               (case group_str m 1 of
                  Inl e \<Rightarrow> Inl e
                | Inr g1 \<Rightarrow>
                    (case group_str m 2 of
                       Inl e \<Rightarrow> Inl e
                     | Inr g2 \<Rightarrow>
                         (let favorite_type = lower (strip g1);
                              favorite_value = strip g2
                          in case store_favorites chatbot favorite_type favorite_value of
                               Inl e \<Rightarrow> Inl e
                             | Inr chatbot \<Rightarrow>
                                 Inr (None, put_user_data ''favorite_type'' (Str favorite_type)
                                              chatbot))))))"

text \<open>
  The lambda of the intent \<open>user_name\<close> in Demo1:
  \<open>self.context.set_user_data('name', match.group(1).title())\<close>, with no test of the match.
\<close>

definition demo1_user_name_action :: "chatbot \<Rightarrow> pymatch option \<Rightarrow> action_result" where
  "demo1_user_name_action self match =
     (case match of
        None \<Rightarrow> Inl AttributeError
      | Some m \<Rightarrow>
          (case group_str m 1 of
             Inl e \<Rightarrow> Inl e
           | Inr g \<Rightarrow> Inr (None, put_user_data ''name'' (Str (title g)) self)))"

text \<open>The call \<open>intent.action(self, match)\<close>.\<close>

definition run_action :: "py_eval \<Rightarrow> action \<Rightarrow> chatbot \<Rightarrow> pymatch option \<Rightarrow> action_result" where
  "run_action ev a self match =
     (case a of
        StoreName \<Rightarrow> store_name_action self match
      | Calculate \<Rightarrow> Inr (Some (calculate ev match), self)
      | StoreBirthday \<Rightarrow> store_birthday_action self match
      | SaveNote \<Rightarrow> save_note_action self match
      | ShowNotes \<Rightarrow> show_notes_action self match
      | StoreFavorites \<Rightarrow> store_favorites_action self match
      | Demo1UserName \<Rightarrow> demo1_user_name_action self match)"

section \<open>Response generator\<close>

text \<open>
  \<open>random.choice(seq)\<close> with the random index as a parameter; an empty sequence raises
  IndexError.
\<close>

definition choice :: "nat \<Rightarrow> 'a list \<Rightarrow> py_exn + 'a" where
  "choice rnd seq = (if seq = [] then Inl IndexError else Inr (seq ! (rnd mod length seq)))"

text \<open>
  The second half of the branch \<open>if intent:\<close>: a random response, filled, then the update
  of the context. \<open>fill\<close> is \<open>_fill_template\<close> of the variant.
\<close>

definition templated_response ::
  "(chatbot \<Rightarrow> string \<Rightarrow> py_exn + string) \<Rightarrow> nat \<Rightarrow> chatbot \<Rightarrow> intent \<Rightarrow> py_exn + (string \<times> chatbot)" where
  "templated_response fill rnd self i =
     (case choice rnd (responses i) of
        Inl e \<Rightarrow> Inl e
      | Inr response \<Rightarrow>
          (case fill self response of
             Inl e \<Rightarrow> Inl e
           | Inr response \<Rightarrow>
               (case context_set i of
                  Some tag \<Rightarrow>
                    if tag \<noteq> []
                    then Inr (response, self\<lparr>ctx := set_context tag (ctx self)\<rparr>)
                    else Inr (response, self\<lparr>ctx := clear_context (ctx self)\<rparr>)
                | None \<Rightarrow> Inr (response, self\<lparr>ctx := clear_context (ctx self)\<rparr>))))"

text \<open>The branch \<open>if intent:\<close> of \<open>get_response\<close>.\<close>

definition intent_response ::
  "(chatbot \<Rightarrow> string \<Rightarrow> py_exn + string) \<Rightarrow> py_eval \<Rightarrow> nat \<Rightarrow> chatbot \<Rightarrow> intent \<Rightarrow>
   pymatch option \<Rightarrow> py_exn + (string \<times> chatbot)" where
  "intent_response fill ev rnd self i match =
     (case action i of
        None \<Rightarrow> templated_response fill rnd self i
      | Some a \<Rightarrow>
          (case run_action ev a self match of
             Inl e \<Rightarrow> Inl e
           | Inr (action_result, self) \<Rightarrow>
               (case action_result of
                  None \<Rightarrow> templated_response fill rnd self i
                | Some r \<Rightarrow>
                    if r \<noteq> []
                    then (case fill self r of Inl e \<Rightarrow> Inl e | Inr filled \<Rightarrow> Inr (filled, self))
                    else templated_response fill rnd self i)))"

text \<open>\<open>self.unknown_responses.get(sentiment_type, self.unknown_responses["neutral"])\<close>.\<close>

definition unknown_responses :: "chatbot \<Rightarrow> string \<Rightarrow> string list" where
  "unknown_responses self sentiment_type =
     (if sentiment_type = ''positive'' then unknown_positive self
      else if sentiment_type = ''negative'' then unknown_negative self
      else unknown_neutral self)"

text \<open>
  \<open>get_response\<close> of Demo2. Its result is the answer and the chatbot after the turn, or
  the exception that left the method.
\<close>

definition get_response ::
  "re_search \<Rightarrow> py_eval \<Rightarrow> sentiment_analyzer \<Rightarrow> datetime \<Rightarrow> nat \<Rightarrow> chatbot \<Rightarrow> string \<Rightarrow>
   py_exn + (string \<times> chatbot)" where
  "get_response search ev cls now rnd self user_input =
     (case classify_intent search self user_input of
        Inl e \<Rightarrow> Inl e
      | Inr (intent, match) \<Rightarrow>
          (let sentiment = analyze cls user_input
           in case intent of
                Some i \<Rightarrow> intent_response (\<lambda>b. fill_template b now) ev rnd self i match
              | None \<Rightarrow>
                  (case choice rnd (unknown_responses self (sentiment_result.sentiment sentiment)) of
                     Inl e \<Rightarrow> Inl e
                   | Inr response \<Rightarrow> Inr (response, self))))"

text \<open>\<open>get_response\<close> of Demo1: the default answers are written in the method.\<close>

definition demo1_defaults :: "string \<Rightarrow> string list" where
  "demo1_defaults sentiment_type =
     (if sentiment_type = ''positive''
      then [''I love your positive energy! What else is on your mind?'',
            ''That sounds great! Tell me more.'',
            ''Wonderful! What else would you like to chat about?'']
      else if sentiment_type = ''negative''
      then [''I'm sorry to hear that. Is there anything I can help with?'',
            ''That sounds challenging. Want to talk about it?'',
            ''I understand. I'm here if you need to chat.'']
      else [''Interesting! Could you tell me more about that?'',
            ''I see. What else is on your mind?'',
            ''That's intriguing! Type 'help' to see what I can do.'',
            ''Hmm, I'm not quite sure what you mean. Try asking differently?''])"

definition demo1_get_response ::
  "re_search \<Rightarrow> py_eval \<Rightarrow> datetime \<Rightarrow> nat \<Rightarrow> chatbot \<Rightarrow> string \<Rightarrow> py_exn + (string \<times> chatbot)" where
  "demo1_get_response search ev now rnd self user_input =
     (case demo1_classify_intent search self user_input of
        Inl e \<Rightarrow> Inl e
      | Inr (intent, match) \<Rightarrow>
          (let sentiment = analyze demo1_SentimentAnalyzer user_input
           in case intent of
                Some i \<Rightarrow> intent_response (\<lambda>b. demo1_fill_template b now) ev rnd self i match
              | None \<Rightarrow>
                  (case choice rnd (demo1_defaults (sentiment_result.sentiment sentiment)) of
                     Inl e \<Rightarrow> Inl e
                   | Inr response \<Rightarrow> Inr (response, self))))"

section \<open>Definitions used to state the properties\<close>

text \<open>Whether a call of \<open>re.search\<close> found a match.\<close>

definition matched :: "py_exn + pymatch option \<Rightarrow> bool" where
  "matched r = (case r of Inr (Some m) \<Rightarrow> True | Inr None \<Rightarrow> False | Inl e \<Rightarrow> False)"

text \<open>
  Whether a call of \<open>re.search\<close> raised an exception that is not \<open>re.error\<close>, one that the
  handlers of Demo2 let through.
\<close>

definition raises_other :: "py_exn + pymatch option \<Rightarrow> bool" where
  "raises_other r = (case r of Inl e \<Rightarrow> e \<noteq> ReError | Inr m \<Rightarrow> False)"

text \<open>
  The score as the specification words it: \<open>2.0\<close> for each pattern that matches the
  lowered utterance, \<open>0.5\<close> for each distinct keyword that is one of its words, then the
  bonus or the penalty of the required context.
\<close>

definition spec_score :: "re_search \<Rightarrow> string option \<Rightarrow> intent \<Rightarrow> string \<Rightarrow> rat" where
  "spec_score search current i text =
     (let text_lower = lower text;
          from_patterns =
            2 * of_nat (length (filter (\<lambda>p. matched (search p text_lower)) (patterns i)));
          from_keywords =
            (1/2) * of_nat (card (set (keyword_list i) \<inter> set (split text_lower)));
          accumulated = from_patterns + from_keywords
      in if truthy (context_required i)
         then (if context_required i = current then accumulated + 1 else accumulated * (1/2))
         else accumulated)"

text \<open>
  The rule of the running best, for any scoring function \<open>sc\<close> and any function \<open>fm\<close>
  giving the first match of an intent: both variants of \<open>classify_intent\<close> are folds of
  this step.
\<close>

definition pick_step :: "(intent \<Rightarrow> rat) \<Rightarrow> (intent \<Rightarrow> pymatch option) \<Rightarrow> best \<Rightarrow> intent \<Rightarrow> best" where
  "pick_step sc fm b i =
     (case b of (bi, bs, bm) \<Rightarrow>
        if sc i > bs then (Some i, sc i, (case fm i of Some m \<Rightarrow> Some m | None \<Rightarrow> bm))
        else (bi, bs, bm))"

subsection \<open>Sample inputs\<close>

text \<open>
  A concrete \<open>re.search\<close> for the examples. On a pattern made of letters, digits and
  spaces a regular expression stands for itself, so with \<open>re.IGNORECASE\<close> the search finds
  the first place where the text equals the pattern up to case; such a pattern has no
  groups, and \<open>lastindex\<close> is \<open>None\<close>. The pattern \<^verbatim>\<open>(\<close> does not compile (\<open>re.error\<close>:
  missing parenthesis). The pattern \<^verbatim>\<open>a{99999999999}\<close> does not compile either, but what
  the compiler raises is OverflowError (the repetition number is too large), which is
  not \<open>re.error\<close>. The examples use no other pattern, but for the four patterns of the
  intent \<open>user_name\<close> of Demo1 on one utterance, where neither reading finds a match.
\<close>

primrec find_literal :: "string \<Rightarrow> string \<Rightarrow> string option" where
  "find_literal p [] = (if p = [] then Some [] else None)"
| "find_literal p (c # cs) =
     (if length p \<le> length (c # cs) \<and> lower (take (length p) (c # cs)) = lower p
      then Some (take (length p) (c # cs))
      else find_literal p cs)"

definition lit_search :: re_search where
  "lit_search pattern text =
     (if pattern = ''('' then Inl ReError
      else if pattern = ''a{99999999999}'' then Inl OverflowError
      else Inr (map_option
                  (\<lambda>g. \<lparr>re_pattern = pattern, group0 = g, groups = [], lastindex = None\<rparr>)
                  (find_literal pattern text)))"

text \<open>
  A concrete \<open>eval\<close> for the examples: Python evaluates \<^verbatim>\<open>5 + 3\<close> to the integer 8; the
  other expressions the examples evaluate, the empty string and two spaces with a minus
  sign, are syntax errors.
\<close>

definition sample_eval :: py_eval where
  "sample_eval e = (if e = ''5 + 3'' then Inr ''8'' else Inl SyntaxError)"

definition sample_now :: datetime where
  "sample_now = \<lparr>year = 2024, month = 1, day = 15, hour = 14, minute = 5, weekday = 0\<rparr>"

definition sample_bot :: "intent list \<Rightarrow> string option \<Rightarrow> chatbot" where
  "sample_bot catalog current =
     \<lparr>bot_name = ''Bot'', intents = catalog,
      ctx = new_context\<lparr>current_context := current\<rparr>,
      unknown_positive = [''That's great!''],
      unknown_negative = [''I'm sorry to hear that.''],
      unknown_neutral = [''Interesting!'']\<rparr>"

definition greeting_intent :: intent where
  "greeting_intent =
     \<lparr>name = ''greeting'', patterns = [], responses = [''Hello!''],
      keyword_list = [''hi'', ''hi''], context_set = None, context_required = None,
      action = None\<rparr>"

definition feeling_intent :: intent where
  "feeling_intent =
     \<lparr>name = ''user_feeling_good'', patterns = [''good''], responses = [''Wonderful to hear!''],
      keyword_list = [''fine''], context_set = None,
      context_required = Some ''asked_user_feeling'', action = None\<rparr>"

definition jokes_intent :: intent where
  "jokes_intent =
     \<lparr>name = ''jokes'', patterns = [''tell me a joke'', ''joke''],
      responses = [''Why do programmers prefer dark mode?''],
      keyword_list = [''joke'', ''funny''], context_set = None, context_required = None,
      action = None\<rparr>"



text \<open>
  Two match objects of the pattern \<^verbatim>\<open>calculate (.+)\<close>, as \<open>re.search\<close> returns them on the
  lowered utterances \<^verbatim>\<open>calculate 5 + 3abc\<close> and \<^verbatim>\<open>calculate ; rm -rf\<close>.
\<close>

definition match_sum :: pymatch where
  "match_sum = \<lparr>re_pattern = ''calculate (.+)'', group0 = ''calculate 5 + 3abc'',
                 groups = [Some ''5 + 3abc''], lastindex = Some 1\<rparr>"

definition match_rm :: pymatch where
  "match_rm = \<lparr>re_pattern = ''calculate (.+)'', group0 = ''calculate ; rm -rf'',
                groups = [Some ''; rm -rf''], lastindex = Some 1\<rparr>"

definition short_joke :: intent where
  "short_joke =
     \<lparr>name = ''jokes'', patterns = [''joke''], responses = [''Knock knock.''],
      keyword_list = [], context_set = None, context_required = None, action = None\<rparr>"

definition small_talk :: intent where
  "small_talk =
     \<lparr>name = ''small_talk'', patterns = [''weather''], responses = [''Tell me more.''],
      keyword_list = [''tell'', ''me'', ''a'', ''funny'', ''joke''], context_set = None,
      context_required = None, action = None\<rparr>"

definition broken_intent :: intent where
  "broken_intent =
     \<lparr>name = ''broken'', patterns = [''('', ''joke''], responses = [''Knock knock.''],
      keyword_list = [''joke''], context_set = None, context_required = None, action = None\<rparr>"

text \<open>An intent whose first pattern makes \<open>re.search\<close> raise OverflowError.\<close>

definition overflow_intent :: intent where
  "overflow_intent =
     \<lparr>name = ''overflow'', patterns = [''a{99999999999}'', ''joke''],
      responses = [''Knock knock.''], keyword_list = [''joke''], context_set = None,
      context_required = None, action = None\<rparr>"



definition sample_words :: sentiment_analyzer where
  "sample_words = \<lparr>POSITIVE_WORDS = set [''good'', ''great''], NEGATIVE_WORDS = set [''bad'']\<rparr>"

definition how_are_you_intent :: intent where
  "how_are_you_intent =
     \<lparr>name = ''how_are_you'', patterns = [''how are you''],
      responses = [''I'm doing great, thanks for asking! How about you?''],
      keyword_list = [''how'', ''feeling'', ''doing''],
      context_set = Some ''asked_user_feeling'', context_required = None, action = None\<rparr>"

definition calculate_intent :: intent where
  "calculate_intent =
     \<lparr>name = ''calculate'', patterns = [''calculate''],
      responses = [''Let me calculate that...''],
      keyword_list = [''calculate'', ''math''], context_set = None, context_required = None,
      action = Some Calculate\<rparr>"




text \<open>
  Whether the action of the intent returned a non-empty string, the case in which
  \<open>get_response\<close> returns at once.
\<close>

definition answered_by_action :: "py_eval \<Rightarrow> chatbot \<Rightarrow> intent \<Rightarrow> pymatch option \<Rightarrow> bool" where
  "answered_by_action ev self i match =
     (case action i of
        None \<Rightarrow> False
      | Some a \<Rightarrow>
          (case run_action ev a self match of
             Inr (Some r, s) \<Rightarrow> r \<noteq> []
           | Inr (None, s) \<Rightarrow> False
           | Inl e \<Rightarrow> False))"

text \<open>
  Whether the value stored under a key of \<open>user_data\<close>, if there is one, is a string.
\<close>

definition str_or_absent :: "conversation_context \<Rightarrow> string \<Rightarrow> bool" where
  "str_or_absent c key =
     (case map_of (user_data c) key of
        None \<Rightarrow> True
      | Some (Str s) \<Rightarrow> True
      | Some (StrList xs) \<Rightarrow> False
      | Some (StrDict d) \<Rightarrow> False)"

text \<open>A placeholder is a name between braces; the name itself holds no brace.\<close>

definition placeholder :: "string \<Rightarrow> string" where
  "placeholder n = ''{'' @ n @ ''}''"

definition brace_free :: "string \<Rightarrow> bool" where
  "brace_free n = (CHR ''{'' \<notin> set n \<and> CHR ''}'' \<notin> set n)"

text \<open>The string remembered under a key of \<open>user_data\<close>, or the default.\<close>

definition fact_or :: "conversation_context \<Rightarrow> string \<Rightarrow> string \<Rightarrow> string" where
  "fact_or c key dflt =
     (case map_of (user_data c) key of
        Some (Str s) \<Rightarrow> s
      | Some (StrList xs) \<Rightarrow> dflt
      | Some (StrDict d) \<Rightarrow> dflt
      | None \<Rightarrow> dflt)"

text \<open>The placeholders that \<open>_fill_template\<close> of Demo2 knows.\<close>

definition recognized :: "string list" where
  "recognized = [''bot_name'', ''user_name'', ''current_time'', ''current_date'', ''user_birthday'']"

section \<open>Properties of the scorer\<close>

lemma score_patterns_sum:
  "\<forall>p\<in>set ps. \<not> raises_other (search p t) \<Longrightarrow>
   score_patterns search t s ps
     = Inr (s + 2 * of_nat (length (filter (\<lambda>p. matched (search p t)) ps)))"
  by (induction ps arbitrary: s)
    (auto simp: matched_def raises_other_def split: sum.splits option.splits)

lemma score_patterns_raises:
  "p \<in> set ps \<Longrightarrow> raises_other (search p t) \<Longrightarrow> isl (score_patterns search t s ps)"
  by (induction ps arbitrary: s) (auto simp: raises_other_def split: sum.splits option.splits)

lemma score_keywords_sum:
  "score_keywords W s ks = s + (1/2) * of_nat (length (filter (\<lambda>k. lower k \<in> W) ks))"
  by (induction ks arbitrary: s) (auto simp: algebra_simps)

lemma demo1_score_patterns_sum:
  "\<forall>p\<in>set ps. \<not> isl (search p t) \<Longrightarrow>
   demo1_score_patterns search t s ps
     = Inr (s + 2 * of_nat (length (filter (\<lambda>p. matched (search p t)) ps)))"
  by (induction ps arbitrary: s) (auto simp: matched_def split: sum.splits option.splits)

lemma demo1_score_patterns_raises:
  "p \<in> set ps \<Longrightarrow> isl (search p t) \<Longrightarrow> isl (demo1_score_patterns search t s ps)"
  by (induction ps arbitrary: s) (auto split: sum.splits option.splits)

lemma distinct_hits_card:
  assumes "distinct ks" and "\<forall>k\<in>set ks. lower k = k"
  shows "length (filter (\<lambda>k. lower k \<in> W) ks) = card (set ks \<inter> W)"
proof -
  have "filter (\<lambda>k. lower k \<in> W) ks = filter (\<lambda>k. k \<in> W) ks"
    using assms(2) by (intro filter_cong) auto
  moreover have "distinct (filter (\<lambda>k. k \<in> W) ks)"
    using assms(1) by simp
  moreover have "set (filter (\<lambda>k. k \<in> W) ks) = set ks \<inter> W"
    by auto
  ultimately show ?thesis
    by (metis distinct_card)
qed

lemma score_context_nonneg: "0 \<le> s \<Longrightarrow> 0 \<le> score_context r c s"
  by (simp add: score_context_def)

text \<open>
  When no pattern of the intent raises anything but \<open>re.error\<close>, the scorer of Demo2
  returns, and the two loops are two counts.
\<close>

lemma score_intent_unfold:
  assumes "\<forall>p\<in>set (patterns i). \<not> raises_other (search p (lower text))"
  shows "score_intent search self i text =
     Inr (score_context (context_required i) (current_context (ctx self))
       (2 * of_nat (length (filter (\<lambda>p. matched (search p (lower text))) (patterns i)))
        + (1/2) * of_nat (length (filter (\<lambda>k. lower k \<in> set (split (lower text)))
                                     (keyword_list i)))))"
  using assms by (simp add: score_intent_def Let_def score_patterns_sum score_keywords_sum)

lemma score_intent_raises:
  assumes "p \<in> set (patterns i)" and "raises_other (search p (lower text))"
  shows "isl (score_intent search self i text)"
  using score_patterns_raises [of p "patterns i" search "lower text" 0, OF assms]
  by (auto simp: score_intent_def Let_def split: sum.splits)

lemma score_intent_returns:
  "\<not> isl (score_intent search self i text)
     \<longleftrightarrow> (\<forall>p\<in>set (patterns i). \<not> raises_other (search p (lower text)))"
proof
  assume "\<not> isl (score_intent search self i text)"
  then show "\<forall>p\<in>set (patterns i). \<not> raises_other (search p (lower text))"
    using score_intent_raises [of _ i search "text" self] by blast
next
  assume "\<forall>p\<in>set (patterns i). \<not> raises_other (search p (lower text))"
  from score_intent_unfold [of i search "text" self, OF this] show "\<not> isl (score_intent search self i text)"
    by simp
qed

lemma demo1_score_intent_ok:
  assumes "\<forall>p\<in>set (patterns i). \<not> isl (search p (lower text))"
  shows "demo1_score_intent search self i text =
           Inr (spec_score search (current_context (ctx self)) i text)"
  using assms
  by (simp add: demo1_score_intent_def demo1_score_patterns_sum spec_score_def
      Let_def score_context_def Int_commute)

lemma demo1_score_intent_raises:
  assumes "p \<in> set (patterns i)" and "isl (search p (lower text))"
  shows "isl (demo1_score_intent search self i text)"
  using demo1_score_patterns_raises [of p "patterns i" search "lower text" 0, OF assms]
  by (auto simp: demo1_score_intent_def Let_def split: sum.splits)

lemma demo1_score_intent_returns:
  "\<not> isl (demo1_score_intent search self i text)
     \<longleftrightarrow> (\<forall>p\<in>set (patterns i). \<not> isl (search p (lower text)))"
proof
  assume "\<not> isl (demo1_score_intent search self i text)"
  then show "\<forall>p\<in>set (patterns i). \<not> isl (search p (lower text))"
    using demo1_score_intent_raises [of _ i search "text" self] by blast
next
  assume "\<forall>p\<in>set (patterns i). \<not> isl (search p (lower text))"
  from demo1_score_intent_ok [of i search "text" self, OF this] show "\<not> isl (demo1_score_intent search self i text)"
    by simp
qed

text \<open>
  C1, as the claim states it, fails on Demo2: the loop over \<open>intent.keywords\<close> adds \<open>0.5\<close>
  for every entry of the list, so a keyword written twice counts twice. With the keywords
  \<open>["hi", "hi"]\<close> and the utterance \<open>hi\<close> the score is \<open>1.0\<close>, where one distinct keyword is
  worth \<open>0.5\<close>.
\<close>

theorem score_intent_repeated_keyword:
  "score_intent lit_search (sample_bot [greeting_intent] None) greeting_intent ''hi'' = Inr 1 \<and>
   spec_score lit_search None greeting_intent ''hi'' = 1/2 \<and>
   score_intent lit_search (sample_bot [greeting_intent] None) greeting_intent ''hi''
     \<noteq> Inr (spec_score lit_search None greeting_intent ''hi'')"
  by code_simp

text \<open>
  C1, amended. For every intent, utterance and current context, when none of the
  intent's patterns makes \<open>re.search\<close> raise an exception other than \<open>re.error\<close>, the scorer
  of Demo2 returns, and the score is: \<open>2.0\<close> for each pattern of \<open>intent.patterns\<close> for
  which the search on the lowered utterance returns a match (a pattern that raises
  \<open>re.error\<close> counts as no match), plus \<open>0.5\<close> for each entry of \<open>intent.keywords\<close> whose
  lower-case form is one of the white-space separated words of the lowered utterance (an
  entry written twice counts twice; a word repeated in the utterance counts once); then,
  if \<open>context_required\<close> is a non-empty tag, \<open>1.0\<close> is added when it equals the current
  context and otherwise the whole accumulated score is multiplied by \<open>0.5\<close>, so that an
  accumulated \<open>2.0\<close> gives \<open>1.0\<close> on mismatch and \<open>3.0\<close> on match. The result is never
  negative. When the keywords are distinct and in lower case this is the score of the
  claim, \<open>0.5\<close> for each distinct keyword present. When a pattern of the intent raises
  another exception, OverflowError for one, the scorer of Demo2 raises and there is no
  score. The scorer of Demo1 returns the score of the claim, for every keyword list, when
  none of the intent's patterns raises any exception, and raises when one does.
\<close>

theorem score_intent_formula:
  fixes search :: re_search
  defines "hits \<equiv> \<lambda>i t. length (filter (\<lambda>p. matched (search p (lower t))) (patterns i))"
  defines "entries \<equiv> \<lambda>i t. length (filter (\<lambda>k. lower k \<in> set (split (lower t))) (keyword_list i))"
  shows
  "((\<forall>q\<in>set (patterns i). \<not> raises_other (search q (lower text))) \<longrightarrow>
      (\<exists>s. score_intent search self i text = Inr s \<and>
         s = (let accumulated = 2 * of_nat (hits i text) + (1/2) * of_nat (entries i text)
              in if truthy (context_required i)
                 then (if current_context (ctx self) = context_required i
                       then accumulated + 1 else accumulated * (1/2))
                 else accumulated) \<and>
         0 \<le> s \<and>
         (truthy (context_required i) \<and>
          2 * of_nat (hits i text) + (1/2) * of_nat (entries i text) = (2::rat) \<longrightarrow>
            s = (if current_context (ctx self) = context_required i then 3 else 1)) \<and>
         (distinct (keyword_list i) \<and> (\<forall>k\<in>set (keyword_list i). lower k = k) \<longrightarrow>
            s = spec_score search (current_context (ctx self)) i text))) \<and>
   (p \<in> set (patterns i) \<and> raises_other (search p (lower text)) \<longrightarrow>
      isl (score_intent search self i text)) \<and>
   ((\<forall>q\<in>set (patterns i). \<not> isl (search q (lower text))) \<longrightarrow>
      demo1_score_intent search self i text =
        Inr (spec_score search (current_context (ctx self)) i text)) \<and>
   (p \<in> set (patterns i) \<and> isl (search p (lower text)) \<longrightarrow>
      isl (demo1_score_intent search self i text))"
proof (intro conjI impI)
  assume ok: "\<forall>q\<in>set (patterns i). \<not> raises_other (search q (lower text))"
  let ?acc = "2 * of_nat (hits i text) + (1/2) * of_nat (entries i text) :: rat"
  let ?s = "score_context (context_required i) (current_context (ctx self)) ?acc"
  have ret: "score_intent search self i text = Inr ?s"
    unfolding hits_def entries_def by (rule score_intent_unfold [of i search "text" self, OF ok])
  have formula: "?s = (let accumulated = ?acc
              in if truthy (context_required i)
                 then (if current_context (ctx self) = context_required i
                       then accumulated + 1 else accumulated * (1/2))
                 else accumulated)"
    by (simp add: score_context_def Let_def)
  have nonneg: "0 \<le> ?s"
    by (intro score_context_nonneg) simp
  have two: "truthy (context_required i) \<and> ?acc = 2 \<longrightarrow>
            ?s = (if current_context (ctx self) = context_required i then 3 else 1)"
    by (simp add: score_context_def)
  have spec: "distinct (keyword_list i) \<and> (\<forall>k\<in>set (keyword_list i). lower k = k) \<longrightarrow>
            ?s = spec_score search (current_context (ctx self)) i text"
  proof
    assume "distinct (keyword_list i) \<and> (\<forall>k\<in>set (keyword_list i). lower k = k)"
    then have "entries i text = card (set (keyword_list i) \<inter> set (split (lower text)))"
      unfolding entries_def by (intro distinct_hits_card) auto
    then show "?s = spec_score search (current_context (ctx self)) i text"
      by (simp add: spec_score_def score_context_def Let_def hits_def)
  qed
  from ret formula nonneg two spec
  show "\<exists>s. score_intent search self i text = Inr s \<and>
         s = (let accumulated = 2 * of_nat (hits i text) + (1/2) * of_nat (entries i text)
              in if truthy (context_required i)
                 then (if current_context (ctx self) = context_required i
                       then accumulated + 1 else accumulated * (1/2))
                 else accumulated) \<and>
         0 \<le> s \<and>
         (truthy (context_required i) \<and>
          2 * of_nat (hits i text) + (1/2) * of_nat (entries i text) = (2::rat) \<longrightarrow>
            s = (if current_context (ctx self) = context_required i then 3 else 1)) \<and>
         (distinct (keyword_list i) \<and> (\<forall>k\<in>set (keyword_list i). lower k = k) \<longrightarrow>
            s = spec_score search (current_context (ctx self)) i text)"
    by blast
next
  assume "p \<in> set (patterns i) \<and> raises_other (search p (lower text))"
  then show "isl (score_intent search self i text)"
    by (intro score_intent_raises [of p]) auto
next
  assume "\<forall>q\<in>set (patterns i). \<not> isl (search q (lower text))"
  then show "demo1_score_intent search self i text =
        Inr (spec_score search (current_context (ctx self)) i text)"
    by (rule demo1_score_intent_ok)
next
  assume "p \<in> set (patterns i) \<and> isl (search p (lower text))"
  then show "isl (demo1_score_intent search self i text)"
    by (intro demo1_score_intent_raises [of p]) auto
qed

theorem score_intent_formula_witness:
  "score_intent lit_search (sample_bot [feeling_intent] None) feeling_intent ''Good'' = Inr 1 \<and>
   score_intent lit_search (sample_bot [feeling_intent] (Some ''asked_user_feeling''))
     feeling_intent ''Good'' = Inr 3 \<and>
   spec_score lit_search None feeling_intent ''Good'' = 1 \<and>
   demo1_score_intent lit_search (sample_bot [feeling_intent] None) feeling_intent ''Good'' = Inr 1 \<and>
   lit_search ''a{99999999999}'' (lower ''a joke'') = Inl OverflowError \<and>
   isl (score_intent lit_search (sample_bot [overflow_intent] None) overflow_intent ''a joke'') \<and>
   isl (demo1_score_intent lit_search (sample_bot [overflow_intent] None) overflow_intent ''a joke'')"
proof -
  let ?b = "sample_bot [feeling_intent] None"
  let ?c = "sample_bot [feeling_intent] (Some ''asked_user_feeling'')"
  let ?o = "sample_bot [overflow_intent] None"
  have tr: "truthy (context_required feeling_intent)" by code_simp
  have acc: "2 * of_nat (length (filter (\<lambda>p. matched (lit_search p (lower ''Good''))) (patterns feeling_intent)))
      + (1/2) * of_nat (length (filter (\<lambda>k. lower k \<in> set (split (lower ''Good''))) (keyword_list feeling_intent)))
      = (2::rat)" by code_simp
  have d: "distinct (keyword_list feeling_intent) \<and> (\<forall>k\<in>set (keyword_list feeling_intent). lower k = k)"
    by code_simp
  have ok: "\<forall>q\<in>set (patterns feeling_intent). \<not> isl (lit_search q (lower ''Good''))"
    and ok2: "\<forall>q\<in>set (patterns feeling_intent). \<not> raises_other (lit_search q (lower ''Good''))"
    by code_simp+
  have cb: "current_context (ctx ?b) \<noteq> context_required feeling_intent"
    and cc: "current_context (ctx ?c) = context_required feeling_intent"
    and cn: "current_context (ctx ?b) = None" by code_simp+
  have ov: "lit_search ''a{99999999999}'' (lower ''a joke'') = Inl OverflowError"
    and mem: "''a{99999999999}'' \<in> set (patterns overflow_intent)"
    and ro: "raises_other (lit_search ''a{99999999999}'' (lower ''a joke''))"
    and il: "isl (lit_search ''a{99999999999}'' (lower ''a joke''))"
    by code_simp+
  from score_intent_formula [of feeling_intent lit_search "''Good''" ?b] tr acc d ok ok2 cb cn
  have 1: "score_intent lit_search ?b feeling_intent ''Good'' = Inr 1"
    and 2: "spec_score lit_search None feeling_intent ''Good'' = 1"
    and 3: "demo1_score_intent lit_search ?b feeling_intent ''Good'' = Inr 1"
    by auto
  from score_intent_formula [of feeling_intent lit_search "''Good''" ?c] tr acc ok2 cc
  have 4: "score_intent lit_search ?c feeling_intent ''Good'' = Inr 3" by auto
  from score_intent_formula [of overflow_intent lit_search "''a joke''" ?o "''a{99999999999}''"]
    mem ro il
  have 5: "isl (score_intent lit_search ?o overflow_intent ''a joke'')"
    and 6: "isl (demo1_score_intent lit_search ?o overflow_intent ''a joke'')"
    by blast+
  from 1 2 3 4 5 6 ov show ?thesis by simp
qed

section \<open>Properties of the classifier\<close>

lemma pick_step_simp:
  "pick_step sc fm (bi, bs, bm) i =
     (if sc i > bs then (Some i, sc i, (case fm i of Some m \<Rightarrow> Some m | None \<Rightarrow> bm))
      else (bi, bs, bm))"
  by (simp add: pick_step_def)

text \<open>
  The invariant of the loop: the running score never falls and bounds every score seen;
  either nothing was replaced, or the running best is an intent of the list that scores
  strictly more than everything before it and at least as much as everything after it.
\<close>

lemma pick_loop_inv:
  "foldl (pick_step sc fm) (bi, bs, bm) xs = (ri, rs, rm) \<Longrightarrow>
     bs \<le> rs \<and> (\<forall>j\<in>set xs. sc j \<le> rs) \<and>
     ((rs = bs \<and> ri = bi) \<or>
      (\<exists>pre i post. xs = pre @ i # post \<and> ri = Some i \<and> rs = sc i \<and> bs < sc i \<and>
         (\<forall>j\<in>set pre. sc j < sc i) \<and> (\<forall>j\<in>set post. sc j \<le> sc i)))"
proof (induction xs arbitrary: bi bs bm)
  case Nil
  then show ?case by simp
next
  case (Cons x xs)
  show ?case
  proof (cases "sc x > bs")
    case True
    let ?bm = "case fm x of Some m \<Rightarrow> Some m | None \<Rightarrow> bm"
    from Cons.prems True have run: "foldl (pick_step sc fm) (Some x, sc x, ?bm) xs = (ri, rs, rm)"
      by (simp add: pick_step_simp)
    note ih = Cons.IH [OF run]
    from ih have le: "sc x \<le> rs" and all: "\<forall>j\<in>set xs. sc j \<le> rs"
      by auto
    from ih consider (same) "rs = sc x" "ri = Some x"
      | (later) pre i post where "xs = pre @ i # post" "ri = Some i" "rs = sc i" "sc x < sc i"
          "\<forall>j\<in>set pre. sc j < sc i" "\<forall>j\<in>set post. sc j \<le> sc i"
      by blast
    then have "\<exists>pre i post. x # xs = pre @ i # post \<and> ri = Some i \<and> rs = sc i \<and> bs < sc i \<and>
         (\<forall>j\<in>set pre. sc j < sc i) \<and> (\<forall>j\<in>set post. sc j \<le> sc i)"
    proof cases
      case same
      with True all have "x # xs = [] @ x # xs \<and> ri = Some x \<and> rs = sc x \<and> bs < sc x \<and>
         (\<forall>j\<in>set []. sc j < sc x) \<and> (\<forall>j\<in>set xs. sc j \<le> sc x)"
        by simp
      then show ?thesis by blast
    next
      case later
      with True have "x # xs = (x # pre) @ i # post \<and> ri = Some i \<and> rs = sc i \<and> bs < sc i \<and>
         (\<forall>j\<in>set (x # pre). sc j < sc i) \<and> (\<forall>j\<in>set post. sc j \<le> sc i)"
        by simp
      then show ?thesis by blast
    qed
    with True le all show ?thesis by auto
  next
    case False
    from Cons.prems False have run: "foldl (pick_step sc fm) (bi, bs, bm) xs = (ri, rs, rm)"
      by (simp add: pick_step_simp)
    note ih = Cons.IH [OF run]
    from ih have le: "bs \<le> rs" and all: "\<forall>j\<in>set xs. sc j \<le> rs"
      by auto
    from ih consider (same) "rs = bs" "ri = bi"
      | (later) pre i post where "xs = pre @ i # post" "ri = Some i" "rs = sc i" "bs < sc i"
          "\<forall>j\<in>set pre. sc j < sc i" "\<forall>j\<in>set post. sc j \<le> sc i"
      by blast
    then show ?thesis
    proof cases
      case same
      with False le all show ?thesis by auto
    next
      case later
      with False have "x # xs = (x # pre) @ i # post \<and> ri = Some i \<and> rs = sc i \<and> bs < sc i \<and>
         (\<forall>j\<in>set (x # pre). sc j < sc i) \<and> (\<forall>j\<in>set post. sc j \<le> sc i)"
        by auto
      then have "\<exists>pre i post. x # xs = pre @ i # post \<and> ri = Some i \<and> rs = sc i \<and> bs < sc i \<and>
         (\<forall>j\<in>set pre. sc j < sc i) \<and> (\<forall>j\<in>set post. sc j \<le> sc i)"
        by blast
      with False le all show ?thesis by auto
    qed
  qed
qed


lemma pick_decide_none_iff:
  assumes "foldl (pick_step sc fm) (None, 0, None) xs = (ri, rs, rm)"
  shows "((if rs > 1/2 then (ri, rm) else (None, None)) = (None, None))
           \<longleftrightarrow> (\<forall>j\<in>set xs. sc j \<le> 1/2)"
proof -
  from pick_loop_inv [OF assms] have all: "\<forall>j\<in>set xs. sc j \<le> rs"
    and alt: "(rs = 0 \<and> ri = None) \<or> (\<exists>i. i \<in> set xs \<and> ri = Some i \<and> rs = sc i)"
    by auto
  show ?thesis
  proof (cases "rs > 1/2")
    case True
    with alt obtain i where i: "i \<in> set xs" "ri = Some i" "rs = sc i"
      by auto
    with True have "\<not> (\<forall>j\<in>set xs. sc j \<le> 1/2)"
      by (metis not_less)
    with True i show ?thesis by simp
  next
    case False
    with all show ?thesis by fastforce
  qed
qed

lemma pick_decide_max:
  assumes "foldl (pick_step sc fm) (None, 0, None) xs = (ri, rs, rm)"
    and "\<exists>j\<in>set xs. sc j > 1/2"
  shows "\<exists>i. rs > 1/2 \<and> ri = Some i \<and> i \<in> set xs \<and> rs = sc i \<and> (\<forall>j\<in>set xs. sc j \<le> sc i)"
proof -
  from pick_loop_inv [OF assms(1)] have all: "\<forall>j\<in>set xs. sc j \<le> rs"
    and alt: "(rs = 0 \<and> ri = None) \<or> (\<exists>i. i \<in> set xs \<and> ri = Some i \<and> rs = sc i)"
    by auto
  from assms(2) all have "rs > 1/2"
    by fastforce
  with alt all show ?thesis by auto
qed


text \<open>
  The same three facts for a scoring function that may raise, on a list where it does
  not: \<open>projr\<close> reads the score out of a result \<open>Inr s\<close>.
\<close>

lemma decide_threshold:
  fixes sc :: "intent \<Rightarrow> py_exn + rat"
  assumes run: "foldl (pick_step (\<lambda>i. projr (sc i)) fm) (None, 0, None) xs = (ri, rs, rm)"
    and ok: "\<forall>i\<in>set xs. \<not> isl (sc i)"
  shows "(((if rs > 1/2 then (ri, rm) else (None, None)) = (None, None))
            \<longleftrightarrow> (\<forall>i\<in>set xs. \<exists>s. sc i = Inr s \<and> s \<le> 1/2)) \<and>
         ((\<exists>j\<in>set xs. \<exists>s. sc j = Inr s \<and> 1/2 < s) \<longrightarrow>
            (\<exists>i s. (if rs > 1/2 then (ri, rm) else (None, None)) = (Some i, rm) \<and>
               i \<in> set xs \<and> sc i = Inr s \<and> 1/2 < s \<and>
               (\<forall>j\<in>set xs. \<exists>s'. sc j = Inr s' \<and> s' \<le> s)))"
proof -
  let ?s = "\<lambda>i. projr (sc i)"
  from ok have val: "\<And>i. i \<in> set xs \<Longrightarrow> sc i = Inr (?s i)"
    by simp
  have none: "((if rs > 1/2 then (ri, rm) else (None, None)) = (None, None))
            \<longleftrightarrow> (\<forall>i\<in>set xs. \<exists>s. sc i = Inr s \<and> s \<le> 1/2)"
  proof -
    have "(\<forall>i\<in>set xs. \<exists>s. sc i = Inr s \<and> s \<le> 1/2) \<longleftrightarrow> (\<forall>i\<in>set xs. ?s i \<le> 1/2)"
      using val by (metis sum.sel(2))
    with pick_decide_none_iff [OF run] show ?thesis
      by simp
  qed
  have some: "(\<exists>j\<in>set xs. \<exists>s. sc j = Inr s \<and> 1/2 < s) \<longrightarrow>
            (\<exists>i s. (if rs > 1/2 then (ri, rm) else (None, None)) = (Some i, rm) \<and>
               i \<in> set xs \<and> sc i = Inr s \<and> 1/2 < s \<and>
               (\<forall>j\<in>set xs. \<exists>s'. sc j = Inr s' \<and> s' \<le> s))"
  proof
    assume "\<exists>j\<in>set xs. \<exists>s. sc j = Inr s \<and> 1/2 < s"
    then have "\<exists>j\<in>set xs. 1/2 < ?s j"
      by (metis sum.sel(2))
    from pick_decide_max [OF run this] obtain i where i: "rs > 1/2" "ri = Some i"
      "i \<in> set xs" "rs = ?s i" "\<forall>j\<in>set xs. ?s j \<le> ?s i"
      by blast
    from i val have "(if rs > 1/2 then (ri, rm) else (None, None)) = (Some i, rm) \<and>
               i \<in> set xs \<and> sc i = Inr (?s i) \<and> 1/2 < ?s i \<and>
               (\<forall>j\<in>set xs. \<exists>s'. sc j = Inr s' \<and> s' \<le> ?s i)"
      by auto
    then show "\<exists>i s. (if rs > 1/2 then (ri, rm) else (None, None)) = (Some i, rm) \<and>
               i \<in> set xs \<and> sc i = Inr s \<and> 1/2 < s \<and>
               (\<forall>j\<in>set xs. \<exists>s'. sc j = Inr s' \<and> s' \<le> s)"
      by blast
  qed
  from none some show ?thesis
    by blast
qed


text \<open>
  Both variants of the classifier are folds of the step on a catalog whose intents all
  get a score: in Demo2 when no pattern raises anything but \<open>re.error\<close>, in Demo1 when no
  pattern raises.
\<close>

lemma first_match_returns:
  "\<forall>p\<in>set ps. \<not> raises_other (search p t) \<Longrightarrow> \<not> isl (first_match search t ps)"
  by (induction ps) (auto simp: raises_other_def split: sum.splits option.splits)

lemma demo1_first_match_returns:
  "\<forall>p\<in>set ps. \<not> isl (search p t) \<Longrightarrow> \<not> isl (demo1_first_match search t ps)"
  by (induction ps) (auto split: sum.splits option.splits)

lemma classify_step_pick:
  assumes "\<forall>p\<in>set (patterns i). \<not> raises_other (search p (lower text))"
  shows "classify_step search self text b i =
     Inr (pick_step (\<lambda>i. projr (score_intent search self i text))
            (\<lambda>i. projr (first_match search (lower text) (patterns i))) b i)"
proof -
  obtain bi bs bm where b: "b = (bi, bs, bm)"
    by (cases b) auto
  from assms obtain s where s: "score_intent search self i text = Inr s"
    using score_intent_unfold [of i search "text" self] by blast
  from first_match_returns [of "patterns i" search "lower text", OF assms]
  obtain m where m: "first_match search (lower text) (patterns i) = Inr m"
    by (cases "first_match search (lower text) (patterns i)") auto
  from s m show ?thesis
    by (simp add: classify_step_def b pick_step_simp split: option.splits)
qed

lemma demo1_classify_step_pick:
  assumes "\<forall>p\<in>set (patterns i). \<not> isl (search p (lower text))"
  shows "demo1_classify_step search self text b i =
     Inr (pick_step (\<lambda>i. projr (demo1_score_intent search self i text))
            (\<lambda>i. projr (demo1_first_match search (lower text) (patterns i))) b i)"
proof -
  obtain bi bs bm where b: "b = (bi, bs, bm)"
    by (cases b) auto
  from assms obtain s where s: "demo1_score_intent search self i text = Inr s"
    using demo1_score_intent_ok [of i search "text" self] by blast
  from demo1_first_match_returns [of "patterns i" search "lower text", OF assms]
  obtain m where m: "demo1_first_match search (lower text) (patterns i) = Inr m"
    by (cases "demo1_first_match search (lower text) (patterns i)") auto
  from s m show ?thesis
    by (simp add: demo1_classify_step_def b pick_step_simp split: option.splits)
qed

lemma classify_loop_foldl:
  "\<forall>i\<in>set xs. \<forall>p\<in>set (patterns i). \<not> raises_other (search p (lower text)) \<Longrightarrow>
   classify_loop search self text b xs =
     Inr (foldl (pick_step (\<lambda>i. projr (score_intent search self i text))
                   (\<lambda>i. projr (first_match search (lower text) (patterns i)))) b xs)"
proof (induction xs arbitrary: b)
  case Nil
  then show ?case by simp
next
  case (Cons x xs)
  from Cons.prems have ok: "\<forall>p\<in>set (patterns x). \<not> raises_other (search p (lower text))"
    by simp
  from Cons.prems
  have "\<forall>i\<in>set xs. \<forall>p\<in>set (patterns i). \<not> raises_other (search p (lower text))"
    by simp
  from Cons.IH [OF this] classify_step_pick [of x search "text" self b, OF ok] show ?case
    by simp
qed

lemma demo1_classify_loop_foldl:
  "\<forall>i\<in>set xs. \<forall>p\<in>set (patterns i). \<not> isl (search p (lower text)) \<Longrightarrow>
   demo1_classify_loop search self text b xs =
     Inr (foldl (pick_step (\<lambda>i. projr (demo1_score_intent search self i text))
                   (\<lambda>i. projr (demo1_first_match search (lower text) (patterns i)))) b xs)"
proof (induction xs arbitrary: b)
  case Nil
  then show ?case by simp
next
  case (Cons x xs)
  from Cons.prems have ok: "\<forall>p\<in>set (patterns x). \<not> isl (search p (lower text))"
    by simp
  from Cons.prems
  have "\<forall>i\<in>set xs. \<forall>p\<in>set (patterns i). \<not> isl (search p (lower text))"
    by simp
  from Cons.IH [OF this] demo1_classify_step_pick [of x search "text" self b, OF ok] show ?case
    by simp
qed

lemma classify_intent_run:
  assumes "\<forall>i\<in>set (intents self). \<forall>p\<in>set (patterns i). \<not> raises_other (search p (lower text))"
  obtains ri rs rm where
    "foldl (pick_step (\<lambda>i. projr (score_intent search self i text))
              (\<lambda>i. projr (first_match search (lower text) (patterns i))))
       (None, 0, None) (intents self) = (ri, rs, rm)"
    and "classify_intent search self text = Inr (if rs > 1/2 then (ri, rm) else (None, None))"
    and "\<forall>i\<in>set (intents self). \<not> isl (score_intent search self i text)"
proof -
  obtain ri rs rm where run:
    "foldl (pick_step (\<lambda>i. projr (score_intent search self i text))
              (\<lambda>i. projr (first_match search (lower text) (patterns i))))
       (None, 0, None) (intents self) = (ri, rs, rm)"
    by (metis prod_cases3)
  with assms classify_loop_foldl [of "intents self" search "text" self "(None, 0, None)"]
  have "classify_intent search self text = Inr (if rs > 1/2 then (ri, rm) else (None, None))"
    by (simp add: classify_intent_def)
  moreover from assms have "\<forall>i\<in>set (intents self). \<not> isl (score_intent search self i text)"
    by (simp add: score_intent_returns)
  ultimately show thesis
    using run that by blast
qed

lemma demo1_classify_intent_run:
  assumes "\<forall>i\<in>set (intents self). \<forall>p\<in>set (patterns i). \<not> isl (search p (lower text))"
  obtains ri rs rm where
    "foldl (pick_step (\<lambda>i. projr (demo1_score_intent search self i text))
              (\<lambda>i. projr (demo1_first_match search (lower text) (patterns i))))
       (None, 0, None) (intents self) = (ri, rs, rm)"
    and "demo1_classify_intent search self text =
           Inr (if rs > 1/2 then (ri, rm) else (None, None))"
    and "\<forall>i\<in>set (intents self). \<not> isl (demo1_score_intent search self i text)"
proof -
  obtain ri rs rm where run:
    "foldl (pick_step (\<lambda>i. projr (demo1_score_intent search self i text))
              (\<lambda>i. projr (demo1_first_match search (lower text) (patterns i))))
       (None, 0, None) (intents self) = (ri, rs, rm)"
    by (metis prod_cases3)
  with assms demo1_classify_loop_foldl [of "intents self" search "text" self "(None, 0, None)"]
  have "demo1_classify_intent search self text =
          Inr (if rs > 1/2 then (ri, rm) else (None, None))"
    by (simp add: demo1_classify_intent_def)
  moreover from assms
  have "\<forall>i\<in>set (intents self). \<not> isl (demo1_score_intent search self i text)"
    by (simp add: demo1_score_intent_returns)
  ultimately show thesis
    using run that by blast
qed

text \<open>
  An exception that leaves the scorer leaves the classifier: the loop scores every
  intent of the catalog.
\<close>

lemma classify_loop_raises:
  assumes "i \<in> set xs" and "isl (score_intent search self i text)"
  shows "isl (classify_loop search self text b xs)"
  using assms(1)
proof (induction xs arbitrary: b)
  case Nil
  then show ?case by simp
next
  case (Cons x xs)
  show ?case
  proof (cases "classify_step search self text b x")
    case (Inl e)
    then show ?thesis by simp
  next
    case (Inr b')
    have "x \<noteq> i"
    proof
      assume "x = i"
      with assms(2) Inr show False
        by (auto simp: classify_step_def split: prod.splits sum.splits)
    qed
    with Cons.prems have "i \<in> set xs"
      by simp
    from Cons.IH [OF this] Inr show ?thesis
      by simp
  qed
qed

lemma demo1_classify_loop_raises:
  assumes "i \<in> set xs" and "isl (demo1_score_intent search self i text)"
  shows "isl (demo1_classify_loop search self text b xs)"
  using assms(1)
proof (induction xs arbitrary: b)
  case Nil
  then show ?case by simp
next
  case (Cons x xs)
  show ?case
  proof (cases "demo1_classify_step search self text b x")
    case (Inl e)
    then show ?thesis by simp
  next
    case (Inr b')
    have "x \<noteq> i"
    proof
      assume "x = i"
      with assms(2) Inr show False
        by (auto simp: demo1_classify_step_def split: prod.splits sum.splits)
    qed
    with Cons.prems have "i \<in> set xs"
      by simp
    from Cons.IH [OF this] Inr show ?thesis
      by simp
  qed
qed

lemma classify_intent_raises:
  assumes "i \<in> set (intents self)" and "isl (score_intent search self i text)"
  shows "isl (classify_intent search self text)"
  using classify_loop_raises [of i "intents self" search self "text" "(None, 0, None)", OF assms]
  by (auto simp: classify_intent_def split: sum.splits)

lemma demo1_classify_intent_raises:
  assumes "i \<in> set (intents self)" and "isl (demo1_score_intent search self i text)"
  shows "isl (demo1_classify_intent search self text)"
  using demo1_classify_loop_raises
    [of i "intents self" search self "text" "(None, 0, None)", OF assms]
  by (auto simp: demo1_classify_intent_def split: sum.splits)

text \<open>
  C2. For every utterance and every conversation state in which the classifier returns,
  \<open>classify_intent\<close> returns \<open>(None, None)\<close> exactly when every intent of the catalog scores
  at most \<open>0.5\<close> under the current context; and when some intent scores more than \<open>0.5\<close>,
  the intent returned is an intent of the catalog that scores the maximum. The classifier
  of Demo2 returns when no pattern of the catalog makes \<open>re.search\<close> raise an exception
  other than \<open>re.error\<close>, which its handlers catch; the classifier of Demo1, which has no
  handler, when no pattern of the catalog raises any exception (the patterns written in
  Demo1 are of this kind). Under no hypothesis on the patterns, each variant returns
  \<open>(None, None)\<close> exactly when every intent of the catalog gets a score and this score is
  at most \<open>0.5\<close>; an exception that leaves the scorer leaves the classifier.
\<close>

theorem classify_intent_threshold:
  fixes search :: re_search
  defines "sc \<equiv> \<lambda>self i t. score_intent search self i t"
  defines "sc1 \<equiv> \<lambda>self i t. demo1_score_intent search self i t"
  shows
  "((\<forall>i\<in>set (intents self). \<forall>p\<in>set (patterns i). \<not> raises_other (search p (lower text))) \<longrightarrow>
      (\<exists>r. classify_intent search self text = Inr r \<and>
         (r = (None, None)
            \<longleftrightarrow> (\<forall>i\<in>set (intents self). \<exists>s. sc self i text = Inr s \<and> s \<le> 1/2)) \<and>
         ((\<exists>j\<in>set (intents self). \<exists>s. sc self j text = Inr s \<and> 1/2 < s) \<longrightarrow>
            (\<exists>i m s. r = (Some i, m) \<and> i \<in> set (intents self) \<and> sc self i text = Inr s \<and>
               1/2 < s \<and> (\<forall>j\<in>set (intents self). \<exists>s'. sc self j text = Inr s' \<and> s' \<le> s))))) \<and>
   (classify_intent search self text = Inr (None, None)
      \<longleftrightarrow> (\<forall>i\<in>set (intents self). \<exists>s. sc self i text = Inr s \<and> s \<le> 1/2)) \<and>
   ((\<forall>i\<in>set (intents self). \<forall>p\<in>set (patterns i). \<not> isl (search p (lower text))) \<longrightarrow>
      (\<exists>r. demo1_classify_intent search self text = Inr r \<and>
         (r = (None, None)
            \<longleftrightarrow> (\<forall>i\<in>set (intents self). \<exists>s. sc1 self i text = Inr s \<and> s \<le> 1/2)) \<and>
         ((\<exists>j\<in>set (intents self). \<exists>s. sc1 self j text = Inr s \<and> 1/2 < s) \<longrightarrow>
            (\<exists>i m s. r = (Some i, m) \<and> i \<in> set (intents self) \<and> sc1 self i text = Inr s \<and>
               1/2 < s \<and> (\<forall>j\<in>set (intents self). \<exists>s'. sc1 self j text = Inr s' \<and> s' \<le> s))))) \<and>
   (demo1_classify_intent search self text = Inr (None, None)
      \<longleftrightarrow> (\<forall>i\<in>set (intents self). \<exists>s. sc1 self i text = Inr s \<and> s \<le> 1/2))"
proof -
  have demo2: "\<exists>r. classify_intent search self text = Inr r \<and>
         (r = (None, None)
            \<longleftrightarrow> (\<forall>i\<in>set (intents self). \<exists>s. sc self i text = Inr s \<and> s \<le> 1/2)) \<and>
         ((\<exists>j\<in>set (intents self). \<exists>s. sc self j text = Inr s \<and> 1/2 < s) \<longrightarrow>
            (\<exists>i m s. r = (Some i, m) \<and> i \<in> set (intents self) \<and> sc self i text = Inr s \<and>
               1/2 < s \<and> (\<forall>j\<in>set (intents self). \<exists>s'. sc self j text = Inr s' \<and> s' \<le> s)))"
    if ok: "\<forall>i\<in>set (intents self). \<forall>p\<in>set (patterns i). \<not> raises_other (search p (lower text))"
  proof -
    obtain ri rs rm where run:
      "foldl (pick_step (\<lambda>i. projr (score_intent search self i text))
                (\<lambda>i. projr (first_match search (lower text) (patterns i))))
         (None, 0, None) (intents self) = (ri, rs, rm)"
      and res: "classify_intent search self text
                  = Inr (if rs > 1/2 then (ri, rm) else (None, None))"
      and ret: "\<forall>i\<in>set (intents self). \<not> isl (score_intent search self i text)"
      by (rule classify_intent_run [of self search "text", OF ok])
    from decide_threshold [OF run ret] res show ?thesis
      unfolding sc_def by blast
  qed
  have demo1: "\<exists>r. demo1_classify_intent search self text = Inr r \<and>
         (r = (None, None)
            \<longleftrightarrow> (\<forall>i\<in>set (intents self). \<exists>s. sc1 self i text = Inr s \<and> s \<le> 1/2)) \<and>
         ((\<exists>j\<in>set (intents self). \<exists>s. sc1 self j text = Inr s \<and> 1/2 < s) \<longrightarrow>
            (\<exists>i m s. r = (Some i, m) \<and> i \<in> set (intents self) \<and> sc1 self i text = Inr s \<and>
               1/2 < s \<and> (\<forall>j\<in>set (intents self). \<exists>s'. sc1 self j text = Inr s' \<and> s' \<le> s)))"
    if ok: "\<forall>i\<in>set (intents self). \<forall>p\<in>set (patterns i). \<not> isl (search p (lower text))"
  proof -
    obtain ri rs rm where run:
      "foldl (pick_step (\<lambda>i. projr (demo1_score_intent search self i text))
                (\<lambda>i. projr (demo1_first_match search (lower text) (patterns i))))
         (None, 0, None) (intents self) = (ri, rs, rm)"
      and res: "demo1_classify_intent search self text
                  = Inr (if rs > 1/2 then (ri, rm) else (None, None))"
      and ret: "\<forall>i\<in>set (intents self). \<not> isl (demo1_score_intent search self i text)"
      by (rule demo1_classify_intent_run [of self search "text", OF ok])
    from decide_threshold [OF run ret] res show ?thesis
      unfolding sc1_def by blast
  qed
  have iff2: "classify_intent search self text = Inr (None, None)
      \<longleftrightarrow> (\<forall>i\<in>set (intents self). \<exists>s. sc self i text = Inr s \<and> s \<le> 1/2)"
  proof (cases "\<forall>i\<in>set (intents self). \<not> isl (score_intent search self i text)")
    case True
    then have "\<forall>i\<in>set (intents self). \<forall>p\<in>set (patterns i).
        \<not> raises_other (search p (lower text))"
      by (simp add: score_intent_returns)
    from demo2 [OF this] show ?thesis
      by auto
  next
    case False
    then obtain i where i: "i \<in> set (intents self)" "isl (score_intent search self i text)"
      by blast
    from classify_intent_raises [OF i] have "classify_intent search self text \<noteq> Inr (None, None)"
      by auto
    moreover from i have "\<not> (\<forall>i\<in>set (intents self). \<exists>s. sc self i text = Inr s \<and> s \<le> 1/2)"
      unfolding sc_def by (metis sum.disc(2))
    ultimately show ?thesis
      by blast
  qed
  have iff1: "demo1_classify_intent search self text = Inr (None, None)
      \<longleftrightarrow> (\<forall>i\<in>set (intents self). \<exists>s. sc1 self i text = Inr s \<and> s \<le> 1/2)"
  proof (cases "\<forall>i\<in>set (intents self). \<not> isl (demo1_score_intent search self i text)")
    case True
    then have "\<forall>i\<in>set (intents self). \<forall>p\<in>set (patterns i). \<not> isl (search p (lower text))"
      by (simp add: demo1_score_intent_returns)
    from demo1 [OF this] show ?thesis
      by auto
  next
    case False
    then obtain i where i: "i \<in> set (intents self)" "isl (demo1_score_intent search self i text)"
      by blast
    from demo1_classify_intent_raises [OF i]
    have "demo1_classify_intent search self text \<noteq> Inr (None, None)"
      by auto
    moreover from i have "\<not> (\<forall>i\<in>set (intents self). \<exists>s. sc1 self i text = Inr s \<and> s \<le> 1/2)"
      unfolding sc1_def by (metis sum.disc(2))
    ultimately show ?thesis
      by blast
  qed
  from demo2 iff2 demo1 iff1 show ?thesis
    by blast
qed

theorem classify_intent_threshold_witness:
  "classify_intent lit_search (sample_bot [feeling_intent, jokes_intent] None) ''Tell me a joke''
     = Inr (Some jokes_intent,
            Some \<lparr>re_pattern = ''tell me a joke'', group0 = ''tell me a joke'', groups = [],
                  lastindex = None\<rparr>) \<and>
   score_intent lit_search (sample_bot [feeling_intent, jokes_intent] None) jokes_intent
     ''Tell me a joke'' = Inr (9/2) \<and>
   score_intent lit_search (sample_bot [feeling_intent, jokes_intent] None) feeling_intent
     ''Tell me a joke'' = Inr 0 \<and>
   classify_intent lit_search (sample_bot [feeling_intent, jokes_intent] None) ''so long''
     = Inr (None, None) \<and>
   (\<exists>m. demo1_classify_intent lit_search (sample_bot [feeling_intent, jokes_intent] None)
          ''Tell me a joke'' = Inr (Some jokes_intent, m)) \<and>
   demo1_classify_intent lit_search (sample_bot [feeling_intent, jokes_intent] None) ''so long''
     = Inr (None, None)"
proof -
  let ?b = "sample_bot [feeling_intent, jokes_intent] None"
  let ?t = "''Tell me a joke''"
  have cat: "intents ?b = [feeling_intent, jokes_intent]"
    by (simp add: sample_bot_def)
  have s1: "score_intent lit_search ?b jokes_intent ?t = Inr (9/2)"
    and s2: "score_intent lit_search ?b feeling_intent ?t = Inr 0"
    and s3: "score_intent lit_search ?b jokes_intent ''so long'' = Inr 0"
    and s4: "score_intent lit_search ?b feeling_intent ''so long'' = Inr 0"
    and d1: "demo1_score_intent lit_search ?b jokes_intent ?t = Inr (9/2)"
    and d2: "demo1_score_intent lit_search ?b feeling_intent ?t = Inr 0"
    and d3: "demo1_score_intent lit_search ?b jokes_intent ''so long'' = Inr 0"
    and d4: "demo1_score_intent lit_search ?b feeling_intent ''so long'' = Inr 0"
    by code_simp+
  have ok: "\<forall>i\<in>set (intents ?b). \<forall>p\<in>set (patterns i). \<not> isl (lit_search p (lower ?t))"
    and ok2: "\<forall>i\<in>set (intents ?b). \<forall>p\<in>set (patterns i). \<not> raises_other (lit_search p (lower ?t))"
    by code_simp+
  note inst = classify_intent_threshold [of ?b lit_search ?t]
  have big: "(1/2::rat) < 9/2"
    by simp
  from inst ok2 obtain r where r1: "classify_intent lit_search ?b ?t = Inr r"
    and r2: "(\<exists>j\<in>set (intents ?b). \<exists>s. score_intent lit_search ?b j ?t = Inr s \<and> 1/2 < s) \<longrightarrow>
            (\<exists>i m s. r = (Some i, m) \<and> i \<in> set (intents ?b) \<and>
               score_intent lit_search ?b i ?t = Inr s \<and> 1/2 < s)"
    by blast
  have "jokes_intent \<in> set (intents ?b) \<and>
        score_intent lit_search ?b jokes_intent ?t = Inr (9/2) \<and> (1/2::rat) < 9/2"
    using cat s1 by simp
  then have "\<exists>j\<in>set (intents ?b). \<exists>s. score_intent lit_search ?b j ?t = Inr s \<and> 1/2 < s"
    by blast
  with r2 obtain i m s where w: "r = (Some i, m)" "i \<in> set (intents ?b)"
    "score_intent lit_search ?b i ?t = Inr s" "1/2 < s"
    by blast
  from w(2) cat have "i = feeling_intent \<or> i = jokes_intent"
    by simp
  with w(3,4) s2 have "i = jokes_intent"
    by auto
  with w(1) r1 have c0: "\<exists>m. classify_intent lit_search ?b ?t = Inr (Some jokes_intent, m)"
    by simp
  have c1: "classify_intent lit_search ?b ?t = Inr (Some jokes_intent,
            Some \<lparr>re_pattern = ''tell me a joke'', group0 = ''tell me a joke'', groups = [],
                  lastindex = None\<rparr>)"
    by code_simp
  from classify_intent_threshold [of ?b lit_search "''so long''"] cat s3 s4
  have c2: "classify_intent lit_search ?b ''so long'' = Inr (None, None)"
    by simp
  from classify_intent_threshold [of ?b lit_search "''so long''"] cat d3 d4
  have c4: "demo1_classify_intent lit_search ?b ''so long'' = Inr (None, None)"
    by simp
  from inst ok obtain r' where q1: "demo1_classify_intent lit_search ?b ?t = Inr r'"
    and q2: "(\<exists>j\<in>set (intents ?b). \<exists>s. demo1_score_intent lit_search ?b j ?t = Inr s \<and> 1/2 < s) \<longrightarrow>
            (\<exists>i m s. r' = (Some i, m) \<and> i \<in> set (intents ?b) \<and>
               demo1_score_intent lit_search ?b i ?t = Inr s \<and> 1/2 < s)"
    by blast
  have "jokes_intent \<in> set (intents ?b) \<and>
        demo1_score_intent lit_search ?b jokes_intent ?t = Inr (9/2) \<and> (1/2::rat) < 9/2"
    using cat d1 by simp
  then have "\<exists>j\<in>set (intents ?b). \<exists>s. demo1_score_intent lit_search ?b j ?t = Inr s \<and> 1/2 < s"
    by blast
  with q2 obtain i' m' s' where v: "r' = (Some i', m')" "i' \<in> set (intents ?b)"
    "demo1_score_intent lit_search ?b i' ?t = Inr s'" "1/2 < s'"
    by blast
  from v(2) cat have "i' = feeling_intent \<or> i' = jokes_intent"
    by simp
  with v(3,4) d2 have "i' = jokes_intent"
    by auto
  with v(1) q1 have c3: "\<exists>m. demo1_classify_intent lit_search ?b ?t = Inr (Some jokes_intent, m)"
    by simp
  from c1 c2 c3 c4 s1 s2 show ?thesis
    by simp
qed



section \<open>Properties of the sentiment estimator\<close>

text \<open>
  C9. For every text, \<open>analyze\<close> splits the lowered text at white space into a set of
  words and counts the words \<open>p\<close> it shares with the positive set and \<open>n\<close> it shares with
  the negative set; it returns the label positive with score \<open>p / (p + n + 1)\<close> when
  \<open>p > n\<close>, negative with score \<open>- n / (p + n + 1)\<close> when \<open>n > p\<close>, and neutral with score
  \<open>0\<close> otherwise. A text whose sentiment words are exactly \<open>good\<close> and \<open>great\<close> is positive
  with score \<open>2/3\<close>, and a text without sentiment words is neutral with score \<open>0\<close>; the
  word sets are those of the class (for Demo1 the two sets written in the source).
\<close>

theorem analyze_formula:
  fixes cls :: sentiment_analyzer
  defines "p \<equiv> \<lambda>t. card (set (split (lower t)) \<inter> POSITIVE_WORDS cls)"
  defines "n \<equiv> \<lambda>t. card (set (split (lower t)) \<inter> NEGATIVE_WORDS cls)"
  shows
  "(p text > n text \<longrightarrow>
      analyze cls text = \<lparr>sentiment = ''positive'',
                           score = of_nat (p text) / of_nat (p text + n text + 1)\<rparr>) \<and>
   (n text > p text \<longrightarrow>
      analyze cls text = \<lparr>sentiment = ''negative'',
                           score = - of_nat (n text) / of_nat (p text + n text + 1)\<rparr>) \<and>
   (p text = n text \<longrightarrow> analyze cls text = \<lparr>sentiment = ''neutral'', score = 0\<rparr>) \<and>
   (set (split (lower text)) \<inter> POSITIVE_WORDS cls = {''good'', ''great''} \<and>
    set (split (lower text)) \<inter> NEGATIVE_WORDS cls = {} \<longrightarrow>
      analyze cls text = \<lparr>sentiment = ''positive'', score = 2/3\<rparr>) \<and>
   (set (split (lower text)) \<inter> (POSITIVE_WORDS cls \<union> NEGATIVE_WORDS cls) = {} \<longrightarrow>
      analyze cls text = \<lparr>sentiment = ''neutral'', score = 0\<rparr>) \<and>
   (set (split (lower text)) \<inter>
      (POSITIVE_WORDS demo1_SentimentAnalyzer \<union> NEGATIVE_WORDS demo1_SentimentAnalyzer)
        = {''good'', ''great''} \<longrightarrow>
      analyze demo1_SentimentAnalyzer text = \<lparr>sentiment = ''positive'', score = 2/3\<rparr>)"
proof -
  let ?W = "set (split (lower text))"
  have two: "card {''good'', ''great''} = 2"
    by simp
  have gen: "\<And>c. ?W \<inter> POSITIVE_WORDS c = {''good'', ''great''} \<Longrightarrow> ?W \<inter> NEGATIVE_WORDS c = {}
      \<Longrightarrow> analyze c text = \<lparr>sentiment = ''positive'', score = 2/3\<rparr>"
    by (simp add: analyze_def Let_def two)
  have pos: "{''good'', ''great''} \<subseteq> POSITIVE_WORDS demo1_SentimentAnalyzer"
    by (simp add: demo1_SentimentAnalyzer_def)
  have neg: "{''good'', ''great''} \<inter> NEGATIVE_WORDS demo1_SentimentAnalyzer = {}"
    by (simp add: demo1_SentimentAnalyzer_def)
  have demo1: "?W \<inter> (POSITIVE_WORDS demo1_SentimentAnalyzer \<union> NEGATIVE_WORDS demo1_SentimentAnalyzer)
        = {''good'', ''great''} \<longrightarrow>
      analyze demo1_SentimentAnalyzer text = \<lparr>sentiment = ''positive'', score = 2/3\<rparr>"
  proof
    assume a: "?W \<inter> (POSITIVE_WORDS demo1_SentimentAnalyzer \<union> NEGATIVE_WORDS demo1_SentimentAnalyzer)
        = {''good'', ''great''}"
    with pos neg have "?W \<inter> POSITIVE_WORDS demo1_SentimentAnalyzer = {''good'', ''great''}"
      and "?W \<inter> NEGATIVE_WORDS demo1_SentimentAnalyzer = {}"
      by blast+
    then show "analyze demo1_SentimentAnalyzer text = \<lparr>sentiment = ''positive'', score = 2/3\<rparr>"
      by (rule gen)
  qed
  have none: "?W \<inter> (POSITIVE_WORDS cls \<union> NEGATIVE_WORDS cls) = {} \<longrightarrow>
      analyze cls text = \<lparr>sentiment = ''neutral'', score = 0\<rparr>"
  proof
    assume "?W \<inter> (POSITIVE_WORDS cls \<union> NEGATIVE_WORDS cls) = {}"
    then have "?W \<inter> POSITIVE_WORDS cls = {}" and "?W \<inter> NEGATIVE_WORDS cls = {}"
      by blast+
    then show "analyze cls text = \<lparr>sentiment = ''neutral'', score = 0\<rparr>"
      by (simp add: analyze_def)
  qed
  show ?thesis
    using gen [of cls] demo1 none
    by (simp add: analyze_def Let_def p_def n_def)
qed

theorem analyze_formula_witness:
  "analyze demo1_SentimentAnalyzer ''This is GOOD and great  great'' =
     \<lparr>sentiment = ''positive'', score = 2/3\<rparr> \<and>
   analyze demo1_SentimentAnalyzer ''bad awful day but nice'' =
     \<lparr>sentiment = ''negative'', score = - 2 / 4\<rparr> \<and>
   analyze demo1_SentimentAnalyzer ''good but bad'' = \<lparr>sentiment = ''neutral'', score = 0\<rparr> \<and>
   analyze demo1_SentimentAnalyzer ''what time is it'' = \<lparr>sentiment = ''neutral'', score = 0\<rparr>"
proof -
  let ?c = demo1_SentimentAnalyzer
  have a: "set (split (lower ''This is GOOD and great  great'')) \<inter>
             (POSITIVE_WORDS ?c \<union> NEGATIVE_WORDS ?c) = {''good'', ''great''}"
    by code_simp
  have b: "card (set (split (lower ''bad awful day but nice'')) \<inter> POSITIVE_WORDS ?c) = 1"
    "card (set (split (lower ''bad awful day but nice'')) \<inter> NEGATIVE_WORDS ?c) = 2"
    by code_simp+
  have c: "card (set (split (lower ''good but bad'')) \<inter> POSITIVE_WORDS ?c) = 1"
    "card (set (split (lower ''good but bad'')) \<inter> NEGATIVE_WORDS ?c) = 1"
    by code_simp+
  have d: "set (split (lower ''what time is it'')) \<inter>
             (POSITIVE_WORDS ?c \<union> NEGATIVE_WORDS ?c) = {}"
    by code_simp
  from analyze_formula [of "''This is GOOD and great  great''" ?c] a
  have 1: "analyze ?c ''This is GOOD and great  great'' = \<lparr>sentiment = ''positive'', score = 2/3\<rparr>"
    by blast
  from analyze_formula [of "''bad awful day but nice''" ?c] b
  have 2: "analyze ?c ''bad awful day but nice'' = \<lparr>sentiment = ''negative'', score = - 2 / 4\<rparr>"
    by simp
  from analyze_formula [of "''good but bad''" ?c] c
  have 3: "analyze ?c ''good but bad'' = \<lparr>sentiment = ''neutral'', score = 0\<rparr>"
    by simp
  from analyze_formula [of "''what time is it''" ?c] d
  have 4: "analyze ?c ''what time is it'' = \<lparr>sentiment = ''neutral'', score = 0\<rparr>"
    by blast
  from 1 2 3 4 show ?thesis
    by blast
qed

section \<open>Properties of the arithmetic action\<close>

lemma calculate_cases:
  "calculate ev match =
     (case match of
        None \<Rightarrow> apology
      | Some m \<Rightarrow>
          (case (if lastindex_truthy m then group m 1 else group m 0) of
             Inr (Some e) \<Rightarrow>
               (case ev (sanitize e) of
                  Inr r \<Rightarrow> ''The result of '' @ sanitize e @ '' is **'' @ r @ ''**''
                | Inl x \<Rightarrow> apology)
           | Inr None \<Rightarrow> apology
           | Inl x \<Rightarrow> apology))"
  by (simp add: calculate_def calculate_try_def Let_def split: option.splits sum.splits)

text \<open>
  C4, as the claim states it, fails in one of its two examples: the capture \<^verbatim>\<open>; rm -rf\<close>
  keeps its two spaces and its minus sign, so it is not sanitized to the empty string.
\<close>

theorem sanitize_rm_not_empty:
  "sanitize ''; rm -rf'' = ''  -'' \<and> sanitize ''; rm -rf'' \<noteq> ''''"
  by code_simp

text \<open>
  C4, amended. For every captured text the arithmetic action first deletes every character
  that is not a digit, a decimal point, a parenthesis, white space or one of \<^verbatim>\<open>+ - * /\<close>,
  then evaluates what remains; when the evaluation raises, and also when there is no match
  object or the captured group is missing, the action returns the fixed apology string,
  and it raises in no case. The capture \<^verbatim>\<open>5 + 3abc\<close> is sanitized to \<^verbatim>\<open>5 + 3\<close> and, evaluated
  to 8, gives the answer with \<^verbatim>\<open>**8**\<close>; the capture \<^verbatim>\<open>; rm -rf\<close> is sanitized to two spaces
  and a minus sign, whose evaluation fails, and the action returns the apology string.
\<close>

theorem calculate_sanitizes_and_apologises:
  fixes ev :: py_eval
  defines "captured \<equiv> \<lambda>m. (if lastindex_truthy m then group m 1 else group m 0)"
  shows
  "sanitize e = filter (\<lambda>c. is_digit c \<or> c \<in> set ''+-*/.()'' \<or> is_space c) e \<and>
   (captured m = Inr (Some e) \<and> ev (sanitize e) = Inr r \<longrightarrow>
      calculate ev (Some m) = ''The result of '' @ sanitize e @ '' is **'' @ r @ ''**'') \<and>
   (captured m = Inr (Some e) \<and> isl (ev (sanitize e)) \<longrightarrow> calculate ev (Some m) = apology) \<and>
   ((\<forall>e'. captured m \<noteq> Inr (Some e')) \<longrightarrow> calculate ev (Some m) = apology) \<and>
   calculate ev None = apology \<and>
   (isl (calculate_try ev match) \<longrightarrow> calculate ev match = apology) \<and>
   run_action ev Calculate self match = Inr (Some (calculate ev match), self) \<and>
   sanitize ''5 + 3abc'' = ''5 + 3'' \<and>
   (ev ''5 + 3'' = Inr ''8'' \<longrightarrow>
      calculate ev (Some match_sum) = ''The result of 5 + 3 is **8**'') \<and>
   sanitize ''; rm -rf'' = ''  -'' \<and>
   (isl (ev ''  -'') \<longrightarrow> calculate ev (Some match_rm) = apology)"
proof -
  have s1: "sanitize ''5 + 3abc'' = ''5 + 3''" and s2: "sanitize ''; rm -rf'' = ''  -''"
    by code_simp+
  have c1: "captured match_sum = Inr (Some ''5 + 3abc'')"
    and c2: "captured match_rm = Inr (Some ''; rm -rf'')"
    unfolding captured_def by code_simp+
  have ok: "\<And>m e r. captured m = Inr (Some e) \<Longrightarrow> ev (sanitize e) = Inr r \<Longrightarrow>
      calculate ev (Some m) = ''The result of '' @ sanitize e @ '' is **'' @ r @ ''**''"
    by (simp add: calculate_cases captured_def)
  have bad: "\<And>m e. captured m = Inr (Some e) \<Longrightarrow> isl (ev (sanitize e)) \<Longrightarrow>
      calculate ev (Some m) = apology"
    by (auto simp: calculate_cases captured_def split: sum.splits)
  have filt: "sanitize e = filter (\<lambda>c. is_digit c \<or> c \<in> set ''+-*/.()'' \<or> is_space c) e"
    unfolding sanitize_def by (rule filter_cong) (simp_all add: keep_char_def)
  have nogroup: "(\<forall>e'. captured m \<noteq> Inr (Some e')) \<longrightarrow> calculate ev (Some m) = apology"
    by (auto simp: calculate_cases captured_def split: sum.splits option.splits)
  have nomatch: "calculate ev None = apology"
    by (simp add: calculate_cases)
  have fail: "isl (calculate_try ev match) \<longrightarrow> calculate ev match = apology"
    by (auto simp: calculate_def split: sum.splits)
  have run: "run_action ev Calculate self match = Inr (Some (calculate ev match), self)"
    by (simp add: run_action_def)
  have sum: "ev ''5 + 3'' = Inr ''8'' \<longrightarrow>
      calculate ev (Some match_sum) = ''The result of 5 + 3 is **8**''"
    using ok [OF c1, of "''8''"] s1 by simp
  have rm: "isl (ev ''  -'') \<longrightarrow> calculate ev (Some match_rm) = apology"
    using bad [OF c2] s2 by simp
  from ok [of m e r] bad [of m e] filt nogroup nomatch fail run sum rm s1 s2
  show ?thesis
    by blast
qed

theorem calculate_sanitizes_and_apologises_witness:
  "calculate sample_eval (Some match_sum) = ''The result of 5 + 3 is **8**'' \<and>
   calculate sample_eval (Some match_rm) = apology \<and>
   calculate sample_eval None = apology \<and>
   sample_eval ''5 + 3'' = Inr ''8'' \<and>
   isl (sample_eval ''  -'')"
proof -
  have a: "sample_eval ''5 + 3'' = Inr ''8''" and b: "isl (sample_eval ''  -'')"
    by code_simp+
  from calculate_sanitizes_and_apologises [of "''''" match_sum sample_eval "''''" None
      "sample_bot [] None"] a
  have 1: "calculate sample_eval (Some match_sum) = ''The result of 5 + 3 is **8**''"
    and 3: "calculate sample_eval None = apology"
    by blast+
  from calculate_sanitizes_and_apologises [of "''''" match_rm sample_eval "''''" None
      "sample_bot [] None"] b
  have 2: "calculate sample_eval (Some match_rm) = apology"
    by blast
  from 1 2 3 a b show ?thesis
    by blast
qed

section \<open>The match returned with the intent\<close>

text \<open>
  C10. The match object returned by \<open>classify_intent\<close> need not come from a pattern of
  the intent returned. When an intent becomes the running best and none of its patterns
  matches, \<open>best_match\<close> keeps the value it had: for some catalog and utterance the
  classifier returns an intent \<open>a\<close>, none of whose patterns matches the lowered utterance,
  with the match of a pattern of an earlier intent \<open>b\<close>; and for some catalog and utterance
  it returns an intent with no match at all. Both variants behave so.
\<close>

theorem classify_intent_foreign_match:
  "(\<exists>self text a b m.
      classify_intent lit_search self text = Inr (Some a, Some m) \<and>
      demo1_classify_intent lit_search self text = Inr (Some a, Some m) \<and>
      b \<in> set (intents self) \<and> re_pattern m \<in> set (patterns b) \<and>
      re_pattern m \<notin> set (patterns a) \<and>
      (\<forall>p\<in>set (patterns a). \<not> matched (lit_search p (lower text)))) \<and>
   (\<exists>self text a.
      classify_intent lit_search self text = Inr (Some a, None) \<and>
      demo1_classify_intent lit_search self text = Inr (Some a, None)) \<and>
   (score_intent search self i text = Inr s \<and> best_score < s \<and>
    first_match search (lower text) (patterns i) = Inr None \<longrightarrow>
      classify_step search self text (best_intent, best_score, best_match) i
        = Inr (Some i, s, best_match))"
proof -
  let ?b = "sample_bot [short_joke, small_talk] None"
  let ?c = "sample_bot [small_talk] None"
  let ?t = "''tell me a funny joke''"
  let ?m = "\<lparr>re_pattern = ''joke'', group0 = ''joke'', groups = [], lastindex = None\<rparr>"
  have 1: "classify_intent lit_search ?b ?t = Inr (Some small_talk, Some ?m)"
    and 2: "demo1_classify_intent lit_search ?b ?t = Inr (Some small_talk, Some ?m)"
    and 3: "short_joke \<in> set (intents ?b)"
    and 4: "re_pattern ?m \<in> set (patterns short_joke)"
    and 5: "re_pattern ?m \<notin> set (patterns small_talk)"
    and 6: "\<forall>p\<in>set (patterns small_talk). \<not> matched (lit_search p (lower ?t))"
    and 7: "classify_intent lit_search ?c ?t = Inr (Some small_talk, None)"
    and 8: "demo1_classify_intent lit_search ?c ?t = Inr (Some small_talk, None)"
    by code_simp+
  from 1 2 3 4 5 6 have first: "\<exists>self text a b m.
      classify_intent lit_search self text = Inr (Some a, Some m) \<and>
      demo1_classify_intent lit_search self text = Inr (Some a, Some m) \<and>
      b \<in> set (intents self) \<and> re_pattern m \<in> set (patterns b) \<and>
      re_pattern m \<notin> set (patterns a) \<and>
      (\<forall>p\<in>set (patterns a). \<not> matched (lit_search p (lower text)))"
    by blast
  from 7 8 have second: "\<exists>self text a.
      classify_intent lit_search self text = Inr (Some a, None) \<and>
      demo1_classify_intent lit_search self text = Inr (Some a, None)"
    by blast
  have step: "score_intent search self i text = Inr s \<and> best_score < s \<and>
    first_match search (lower text) (patterns i) = Inr None \<longrightarrow>
      classify_step search self text (best_intent, best_score, best_match) i
        = Inr (Some i, s, best_match)"
    by (simp add: classify_step_def)
  from first second step show ?thesis
    by blast
qed

theorem classify_intent_foreign_match_witness:
  "classify_intent lit_search (sample_bot [short_joke, small_talk] None) ''tell me a funny joke''
     = Inr (Some small_talk,
            Some \<lparr>re_pattern = ''joke'', group0 = ''joke'', groups = [], lastindex = None\<rparr>) \<and>
   score_intent lit_search (sample_bot [short_joke, small_talk] None) short_joke
     ''tell me a funny joke'' = Inr 2 \<and>
   score_intent lit_search (sample_bot [short_joke, small_talk] None) small_talk
     ''tell me a funny joke'' = Inr (5/2) \<and>
   first_match lit_search (lower ''tell me a funny joke'') (patterns small_talk) = Inr None \<and>
   classify_intent lit_search (sample_bot [small_talk] None) ''tell me a funny joke''
     = Inr (Some small_talk, None)"
proof -
  let ?b = "sample_bot [short_joke, small_talk] None"
  let ?t = "''tell me a funny joke''"
  let ?m = "\<lparr>re_pattern = ''joke'', group0 = ''joke'', groups = [], lastindex = None\<rparr>"
  have s1: "score_intent lit_search ?b short_joke ?t = Inr 2"
    and s2: "score_intent lit_search ?b small_talk ?t = Inr (5/2)"
    and fm: "first_match lit_search (lower ?t) (patterns small_talk) = Inr None"
    and st: "classify_step lit_search ?b ?t (None, 0, None) short_joke
               = Inr (Some short_joke, 2, Some ?m)"
    and cat: "intents ?b = [short_joke, small_talk]"
    and one: "classify_intent lit_search (sample_bot [small_talk] None) ?t
                = Inr (Some small_talk, None)"
    by code_simp+
  have lt: "(2::rat) < 5/2"
    by simp
  from classify_intent_foreign_match
    [of lit_search ?b small_talk ?t "5/2" 2 "Some short_joke" "Some ?m"] s2 fm lt
  have "classify_step lit_search ?b ?t (Some short_joke, 2, Some ?m) small_talk
          = Inr (Some small_talk, 5/2, Some ?m)"
    by blast
  with st cat have "classify_intent lit_search ?b ?t = Inr (Some small_talk, Some ?m)"
    by (simp add: classify_intent_def)
  with s1 s2 fm one show ?thesis
    by blast
qed

section \<open>Patterns that do not compile\<close>

lemma score_patterns_skip:
  "score_patterns search t s (filter (\<lambda>p. search p t \<noteq> Inl ReError) ps)
     = score_patterns search t s ps"
  by (induction ps arbitrary: s) (auto split: sum.splits option.splits)

lemma first_match_skip:
  "first_match search t (filter (\<lambda>p. search p t \<noteq> Inl ReError) ps) = first_match search t ps"
  by (induction ps) (auto split: sum.splits option.splits)

lemma score_patterns_drop_one:
  "search p t = Inl ReError \<Longrightarrow>
   score_patterns search t s (pre @ p # post) = score_patterns search t s (pre @ post)"
  by (induction pre arbitrary: s) (auto split: sum.splits option.splits)

lemma first_match_drop_one:
  "search p t = Inl ReError \<Longrightarrow>
   first_match search t (pre @ p # post) = first_match search t (pre @ post)"
  by (induction pre) (auto split: sum.splits option.splits)

text \<open>
  Renaming the intents of the catalog by a function that changes neither the score nor
  the first match of an intent renames the intent returned, and nothing else.
\<close>

lemma classify_loop_map:
  assumes sc: "\<And>j. score_intent search self' (f j) text = score_intent search self j text"
    and fm: "\<And>j. first_match search (lower text) (patterns (f j))
                 = first_match search (lower text) (patterns j)"
  shows "classify_loop search self' text (map_option f bi, bs, bm) (map f xs) =
           (case classify_loop search self text (bi, bs, bm) xs of
              Inl e \<Rightarrow> Inl e
            | Inr (ri, rs, rm) \<Rightarrow> Inr (map_option f ri, rs, rm))"
proof (induction xs arbitrary: bi bs bm)
  case Nil
  show ?case by simp
next
  case (Cons x xs)
  have step: "classify_step search self' text (map_option f bi, bs, bm) (f x) =
           (case classify_step search self text (bi, bs, bm) x of
              Inl e \<Rightarrow> Inl e
            | Inr (ri, rs, rm) \<Rightarrow> Inr (map_option f ri, rs, rm))"
    by (simp add: classify_step_def sc fm split: sum.splits option.splits)
  show ?case
  proof (cases "classify_step search self text (bi, bs, bm) x")
    case (Inl e)
    with step show ?thesis by simp
  next
    case (Inr b')
    obtain ri rs rm where b': "b' = (ri, rs, rm)"
      by (cases b') auto
    from step Inr b' Cons.IH [of ri rs rm] show ?thesis
      by simp
  qed
qed

text \<open>
  C6, as the claim states it, fails. Demo1 calls \<open>re.search\<close> with no handler in
  \<open>_score_intent\<close> and in \<open>classify_intent\<close>, so a pattern that does not compile ends
  scoring and classification with \<open>re.error\<close>. Demo2 catches \<open>re.error\<close> and nothing else:
  the pattern \<^verbatim>\<open>a{99999999999}\<close> does not compile, the exception is OverflowError, and it
  leaves scoring and classification.
\<close>

theorem malformed_pattern_raises:
  "demo1_score_intent lit_search (sample_bot [broken_intent] None) broken_intent ''a joke''
     = Inl ReError \<and>
   demo1_classify_intent lit_search (sample_bot [broken_intent] None) ''a joke'' = Inl ReError \<and>
   lit_search ''a{99999999999}'' (lower ''a joke'') = Inl OverflowError \<and>
   score_intent lit_search (sample_bot [overflow_intent] None) overflow_intent ''a joke''
     = Inl OverflowError \<and>
   classify_intent lit_search (sample_bot [overflow_intent] None) ''a joke''
     = Inl OverflowError"
  by code_simp

text \<open>
  C6, amended. In Demo2, for every intent containing a pattern on which \<open>re.search\<close>
  raises \<open>re.error\<close>, scoring and classification neither raise on account of that pattern
  nor award its weight: the pattern counts as a non-match for that one pattern. Taking
  it out of the list changes neither the score nor the first match of the intent, and
  classifying against the catalog is classifying against the catalog without these
  patterns, the intent returned apart from the patterns taken out. When no pattern
  raises any other exception, scoring and classification return. A pattern on which
  \<open>re.search\<close> raises another exception, OverflowError for a repeat count too large, ends
  scoring of the intent and classification against a catalog that holds it with that
  exception. In Demo1, which has no handler, scoring an intent with a pattern that raises
  any exception, \<open>re.error\<close> too, and classifying against a catalog that holds it, raise.
\<close>

theorem malformed_pattern_skipped:
  fixes search :: re_search
  defines "bad \<equiv> \<lambda>t p. search p (lower t) = Inl ReError"
  defines "cleaned \<equiv>
    \<lambda>t j. j\<lparr>patterns := filter (\<lambda>p. search p (lower t) \<noteq> Inl ReError) (patterns j)\<rparr>"
  shows
  "(bad text p \<longrightarrow>
      score_intent search self (i\<lparr>patterns := pre @ p # post\<rparr>) text
        = score_intent search self (i\<lparr>patterns := pre @ post\<rparr>) text \<and>
      first_match search (lower text) (pre @ p # post)
        = first_match search (lower text) (pre @ post)) \<and>
   score_intent search self (cleaned text i) text = score_intent search self i text \<and>
   first_match search (lower text) (patterns (cleaned text i))
     = first_match search (lower text) (patterns i) \<and>
   classify_intent search (self\<lparr>intents := map (cleaned text) (intents self)\<rparr>) text
     = (case classify_intent search self text of
          Inl e \<Rightarrow> Inl e
        | Inr (best_intent, best_match) \<Rightarrow>
            Inr (map_option (cleaned text) best_intent, best_match)) \<and>
   ((\<forall>q\<in>set (patterns i). \<not> raises_other (search q (lower text))) \<longrightarrow>
      \<not> isl (score_intent search self i text) \<and>
      \<not> isl (first_match search (lower text) (patterns i))) \<and>
   ((\<forall>j\<in>set (intents self). \<forall>q\<in>set (patterns j). \<not> raises_other (search q (lower text))) \<longrightarrow>
      \<not> isl (classify_intent search self text)) \<and>
   (p \<in> set (patterns i) \<and> raises_other (search p (lower text)) \<longrightarrow>
      isl (score_intent search self i text)) \<and>
   (i \<in> set (intents self) \<and> p \<in> set (patterns i) \<and> raises_other (search p (lower text)) \<longrightarrow>
      isl (classify_intent search self text)) \<and>
   (p \<in> set (patterns i) \<and> isl (search p (lower text)) \<longrightarrow>
      isl (demo1_score_intent search self i text)) \<and>
   (i \<in> set (intents self) \<and> p \<in> set (patterns i) \<and> isl (search p (lower text)) \<longrightarrow>
      isl (demo1_classify_intent search self text))"
proof -
  let ?f = "cleaned text"
  let ?self' = "self\<lparr>intents := map ?f (intents self)\<rparr>"
  have one: "bad text p \<longrightarrow>
      score_intent search self (i\<lparr>patterns := pre @ p # post\<rparr>) text
        = score_intent search self (i\<lparr>patterns := pre @ post\<rparr>) text \<and>
      first_match search (lower text) (pre @ p # post)
        = first_match search (lower text) (pre @ post)"
    by (auto simp: bad_def score_intent_def Let_def score_patterns_drop_one first_match_drop_one
        split: sum.splits)
  have sc: "\<And>j. score_intent search ?self' (?f j) text = score_intent search self j text"
    by (auto simp: cleaned_def score_intent_def Let_def score_patterns_skip split: sum.splits)
  have sc': "score_intent search self (?f i) text = score_intent search self i text"
    by (auto simp: cleaned_def score_intent_def Let_def score_patterns_skip split: sum.splits)
  have fm: "\<And>j. first_match search (lower text) (patterns (?f j))
                 = first_match search (lower text) (patterns j)"
    by (simp add: cleaned_def first_match_skip)
  from classify_loop_map [of search ?self' ?f "text" self None 0 None "intents self", OF sc fm]
  have cls: "classify_intent search ?self' text
     = (case classify_intent search self text of
          Inl e \<Rightarrow> Inl e
        | Inr (best_intent, best_match) \<Rightarrow> Inr (map_option ?f best_intent, best_match))"
    by (simp add: classify_intent_def split: sum.splits prod.splits)
  have ret1: "(\<forall>q\<in>set (patterns i). \<not> raises_other (search q (lower text))) \<longrightarrow>
      \<not> isl (score_intent search self i text) \<and>
      \<not> isl (first_match search (lower text) (patterns i))"
    by (simp add: score_intent_returns first_match_returns)
  have ret2: "(\<forall>j\<in>set (intents self). \<forall>q\<in>set (patterns j).
        \<not> raises_other (search q (lower text))) \<longrightarrow>
      \<not> isl (classify_intent search self text)"
  proof
    assume ok: "\<forall>j\<in>set (intents self). \<forall>q\<in>set (patterns j).
        \<not> raises_other (search q (lower text))"
    from classify_loop_foldl [of "intents self" search "text" self "(None, 0, None)", OF ok]
    show "\<not> isl (classify_intent search self text)"
      by (simp add: classify_intent_def split: prod.splits)
  qed
  have r1: "p \<in> set (patterns i) \<and> raises_other (search p (lower text)) \<longrightarrow>
      isl (score_intent search self i text)"
    using score_intent_raises [of p i search "text" self] by blast
  have r2: "i \<in> set (intents self) \<and> p \<in> set (patterns i) \<and>
      raises_other (search p (lower text)) \<longrightarrow> isl (classify_intent search self text)"
    using score_intent_raises [of p i search "text" self]
      classify_intent_raises [of i self search "text"] by blast
  have d1: "p \<in> set (patterns i) \<and> isl (search p (lower text)) \<longrightarrow>
      isl (demo1_score_intent search self i text)"
    using demo1_score_intent_raises [of p i search "text" self] by blast
  have d2: "i \<in> set (intents self) \<and> p \<in> set (patterns i) \<and> isl (search p (lower text)) \<longrightarrow>
      isl (demo1_classify_intent search self text)"
    using demo1_score_intent_raises [of p i search "text" self]
      demo1_classify_intent_raises [of i self search "text"] by blast
  from one sc' fm [of i] cls ret1 ret2 r1 r2 d1 d2 show ?thesis
    by blast
qed

theorem malformed_pattern_skipped_witness:
  "lit_search ''('' (lower ''a joke'') = Inl ReError \<and>
   score_intent lit_search (sample_bot [broken_intent] None) broken_intent ''a joke''
     = Inr (5/2) \<and>
   score_intent lit_search (sample_bot [broken_intent] None)
     (broken_intent\<lparr>patterns := [''joke'']\<rparr>) ''a joke'' = Inr (5/2) \<and>
   first_match lit_search (lower ''a joke'') (patterns broken_intent)
     = Inr (Some \<lparr>re_pattern = ''joke'', group0 = ''joke'', groups = [], lastindex = None\<rparr>) \<and>
   \<not> isl (classify_intent lit_search (sample_bot [broken_intent] None) ''a joke'') \<and>
   isl (demo1_score_intent lit_search (sample_bot [broken_intent] None) broken_intent ''a joke'') \<and>
   isl (demo1_classify_intent lit_search (sample_bot [broken_intent] None) ''a joke'') \<and>
   isl (score_intent lit_search (sample_bot [overflow_intent] None) overflow_intent ''a joke'') \<and>
   isl (classify_intent lit_search (sample_bot [overflow_intent] None) ''a joke'')"
proof -
  let ?b = "sample_bot [broken_intent] None"
  let ?o = "sample_bot [overflow_intent] None"
  let ?t = "''a joke''"
  have bad: "lit_search ''('' (lower ?t) = Inl ReError"
    and il: "isl (lit_search ''('' (lower ?t))"
    and pats: "broken_intent = broken_intent\<lparr>patterns := [] @ ''('' # [''joke'']\<rparr>"
    and mem: "''('' \<in> set (patterns broken_intent)"
    and cat: "broken_intent \<in> set (intents ?b)"
    and s: "score_intent lit_search ?b (broken_intent\<lparr>patterns := [''joke'']\<rparr>) ?t = Inr (5/2)"
    and fm: "first_match lit_search (lower ?t) [''joke'']
       = Inr (Some \<lparr>re_pattern = ''joke'', group0 = ''joke'', groups = [], lastindex = None\<rparr>)"
    and ps: "patterns broken_intent = [] @ ''('' # [''joke'']"
    and ok: "\<forall>j\<in>set (intents ?b). \<forall>q\<in>set (patterns j). \<not> raises_other (lit_search q (lower ?t))"
    and omem: "''a{99999999999}'' \<in> set (patterns overflow_intent)"
    and ocat: "overflow_intent \<in> set (intents ?o)"
    and oro: "raises_other (lit_search ''a{99999999999}'' (lower ?t))"
    by code_simp+
  note inst = malformed_pattern_skipped [of lit_search "''(''" ?t ?b "[]" "[''joke'']" broken_intent]
  from inst bad have "score_intent lit_search ?b (broken_intent\<lparr>patterns := [] @ ''('' # [''joke'']\<rparr>) ?t
        = score_intent lit_search ?b (broken_intent\<lparr>patterns := [] @ [''joke'']\<rparr>) ?t"
    and f: "first_match lit_search (lower ?t) ([] @ ''('' # [''joke''])
        = first_match lit_search (lower ?t) ([] @ [''joke''])"
    by blast+
  with pats s have 1: "score_intent lit_search ?b broken_intent ?t = Inr (5/2)"
    by simp
  from f fm ps have 2: "first_match lit_search (lower ?t) (patterns broken_intent)
     = Inr (Some \<lparr>re_pattern = ''joke'', group0 = ''joke'', groups = [], lastindex = None\<rparr>)"
    by simp
  from inst ok have 3: "\<not> isl (classify_intent lit_search ?b ?t)"
    by blast
  from inst il mem cat have 4: "isl (demo1_score_intent lit_search ?b broken_intent ?t)"
    and 5: "isl (demo1_classify_intent lit_search ?b ?t)"
    by blast+
  from malformed_pattern_skipped
    [of lit_search "''a{99999999999}''" ?t ?o "[]" "[''joke'']" overflow_intent] oro omem ocat
  have 6: "isl (score_intent lit_search ?o overflow_intent ?t)"
    and 7: "isl (classify_intent lit_search ?o ?t)"
    by blast+
  from bad 1 s 2 3 4 5 6 7 show ?thesis
    by blast
qed

section \<open>Properties of the turn\<close>

lemma put_user_data_frame [simp]:
  "context_writes (ctx (put_user_data k v s)) = context_writes (ctx s)"
  "current_context (ctx (put_user_data k v s)) = current_context (ctx s)"
  by (simp_all add: put_user_data_def set_user_data_def)

lemma store_name_action_frame:
  "store_name_action self match = Inr (res, s) \<Longrightarrow>
   context_writes (ctx s) = context_writes (ctx self) \<and>
   current_context (ctx s) = current_context (ctx self)"
  by (auto simp: store_name_action_def split: option.splits sum.splits if_splits bool.splits)

lemma store_birthday_action_frame:
  "store_birthday_action self match = Inr (res, s) \<Longrightarrow>
   context_writes (ctx s) = context_writes (ctx self) \<and>
   current_context (ctx s) = current_context (ctx self)"
  by (auto simp: store_birthday_action_def split: option.splits sum.splits if_splits bool.splits)

lemma save_note_action_frame:
  "save_note_action self match = Inr (res, s) \<Longrightarrow>
   context_writes (ctx s) = context_writes (ctx self) \<and>
   current_context (ctx s) = current_context (ctx self)"
  by (auto simp: save_note_action_def
      split: option.splits sum.splits if_splits bool.splits pyval.splits)

lemma show_notes_action_frame:
  "show_notes_action self match = Inr (res, s) \<Longrightarrow> s = self"
  by (auto simp: show_notes_action_def split: option.splits if_splits)

lemma store_favorites_frame:
  "store_favorites self k v = Inr s \<Longrightarrow>
   context_writes (ctx s) = context_writes (ctx self) \<and>
   current_context (ctx s) = current_context (ctx self)"
  by (auto simp: store_favorites_def Let_def split: pyval.splits)

lemma store_favorites_action_frame:
  "store_favorites_action self match = Inr (res, s) \<Longrightarrow>
   context_writes (ctx s) = context_writes (ctx self) \<and>
   current_context (ctx s) = current_context (ctx self)"
  by (auto simp: store_favorites_action_def Let_def dest!: store_favorites_frame
      split: option.splits sum.splits if_splits bool.splits)

lemma demo1_user_name_action_frame:
  "demo1_user_name_action self match = Inr (res, s) \<Longrightarrow>
   context_writes (ctx s) = context_writes (ctx self) \<and>
   current_context (ctx s) = current_context (ctx self)"
  by (auto simp: demo1_user_name_action_def split: option.splits sum.splits)

text \<open>No action assigns \<open>current_context\<close>.\<close>

lemma run_action_frame:
  assumes "run_action ev a self match = Inr (res, s)"
  shows "context_writes (ctx s) = context_writes (ctx self) \<and>
         current_context (ctx s) = current_context (ctx self)"
proof (cases a)
  case StoreName
  with assms show ?thesis
    by (simp add: run_action_def store_name_action_frame)
next
  case Calculate
  with assms show ?thesis
    by (auto simp: run_action_def)
next
  case StoreBirthday
  with assms show ?thesis
    by (simp add: run_action_def store_birthday_action_frame)
next
  case SaveNote
  with assms show ?thesis
    by (simp add: run_action_def save_note_action_frame)
next
  case ShowNotes
  with assms show ?thesis
    by (auto simp: run_action_def dest: show_notes_action_frame)
next
  case StoreFavorites
  with assms show ?thesis
    by (simp add: run_action_def store_favorites_action_frame)
next
  case Demo1UserName
  with assms show ?thesis
    by (simp add: run_action_def demo1_user_name_action_frame)
qed

lemma templated_response_writes:
  assumes "templated_response fill rnd s i = Inr (r, s')"
  shows "context_writes (ctx s') = context_writes (ctx s) + 1 \<and>
         current_context (ctx s') = (if truthy (context_set i) then context_set i else None)"
  using assms
  by (auto simp: templated_response_def set_context_def clear_context_def truthy_def
      split: sum.splits option.splits if_splits)

text \<open>The branch \<open>if intent:\<close> writes the context once, unless the action answered.\<close>

lemma intent_response_writes:
  assumes "intent_response fill ev rnd self i match = Inr (r, self')"
  shows "if answered_by_action ev self i match
         then context_writes (ctx self') = context_writes (ctx self) \<and>
              current_context (ctx self') = current_context (ctx self)
         else context_writes (ctx self') = context_writes (ctx self) + 1 \<and>
              current_context (ctx self') = (if truthy (context_set i) then context_set i else None)"
proof (cases "action i")
  case None
  with assms have "templated_response fill rnd self i = Inr (r, self')"
    by (simp add: intent_response_def)
  from templated_response_writes [OF this] None show ?thesis
    by (simp add: answered_by_action_def)
next
  case (Some a)
  show ?thesis
  proof (cases "run_action ev a self match")
    case (Inl e)
    with assms Some show ?thesis
      by (simp add: intent_response_def)
  next
    case (Inr p)
    obtain res s where p: "p = (res, s)"
      by (cases p) auto
    from run_action_frame [of ev a self match res s] Inr p
    have frame: "context_writes (ctx s) = context_writes (ctx self)"
      "current_context (ctx s) = current_context (ctx self)"
      by simp_all
    show ?thesis
    proof (cases "\<exists>t. res = Some t \<and> t \<noteq> []")
      case True
      then obtain t where t: "res = Some t" "t \<noteq> []"
        by blast
      with assms Some Inr p have "self' = s"
        by (auto simp: intent_response_def split: sum.splits)
      with frame Some Inr p t show ?thesis
        by (simp add: answered_by_action_def)
    next
      case False
      with assms Some Inr p have "templated_response fill rnd s i = Inr (r, self')"
        by (auto simp: intent_response_def split: option.splits if_splits)
      from templated_response_writes [OF this] frame False Some Inr p show ?thesis
        by (auto simp: answered_by_action_def split: option.splits)
    qed
  qed
qed

text \<open>
  C7, as the claim states it, fails: a turn in which no intent is classified leaves the
  context as it is, and so does a turn answered by the action of the intent. In both
  turns below the context \<open>asked_user_feeling\<close> is neither overwritten nor cleared.
\<close>

theorem get_response_without_context_write:
  "get_response lit_search sample_eval sample_words sample_now 0
     (sample_bot [jokes_intent] (Some ''asked_user_feeling'')) ''so long''
     = Inr (''Interesting!'', sample_bot [jokes_intent] (Some ''asked_user_feeling'')) \<and>
   get_response lit_search sample_eval sample_words sample_now 0
     (sample_bot [calculate_intent] (Some ''asked_user_feeling'')) ''calculate''
     = Inr (apology, sample_bot [calculate_intent] (Some ''asked_user_feeling'')) \<and>
   context_writes (ctx (sample_bot [calculate_intent] (Some ''asked_user_feeling''))) = 0 \<and>
   current_context (ctx (sample_bot [calculate_intent] (Some ''asked_user_feeling'')))
     = Some ''asked_user_feeling''"
  by code_simp

text \<open>
  C7, amended. Every turn that returns writes \<open>current_context\<close> at most once. It writes
  it exactly once, setting it to the \<open>context_set\<close> of the intent when that is a
  non-empty tag and clearing it otherwise, when an intent was classified and its action,
  if it has one, returned no non-empty string. It does not write it when no intent was
  classified (the chatbot is then unchanged) or when the action returned a non-empty
  string, which is then the answer. Both variants behave so.
\<close>

theorem get_response_context_writes:
  "(get_response search ev cls now rnd self user_input = Inr (response, self') \<longrightarrow>
      (case classify_intent search self user_input of
         Inl e \<Rightarrow> False
       | Inr (None, m) \<Rightarrow> self' = self
       | Inr (Some i, m) \<Rightarrow>
           if answered_by_action ev self i m
           then context_writes (ctx self') = context_writes (ctx self) \<and>
                current_context (ctx self') = current_context (ctx self)
           else context_writes (ctx self') = context_writes (ctx self) + 1 \<and>
                current_context (ctx self')
                  = (if truthy (context_set i) then context_set i else None))) \<and>
   (demo1_get_response search ev now rnd self user_input = Inr (response, self') \<longrightarrow>
      (case demo1_classify_intent search self user_input of
         Inl e \<Rightarrow> False
       | Inr (None, m) \<Rightarrow> self' = self
       | Inr (Some i, m) \<Rightarrow>
           if answered_by_action ev self i m
           then context_writes (ctx self') = context_writes (ctx self) \<and>
                current_context (ctx self') = current_context (ctx self)
           else context_writes (ctx self') = context_writes (ctx self) + 1 \<and>
                current_context (ctx self')
                  = (if truthy (context_set i) then context_set i else None)))"
proof (intro conjI impI)
  assume a: "get_response search ev cls now rnd self user_input = Inr (response, self')"
  show "case classify_intent search self user_input of
         Inl e \<Rightarrow> False
       | Inr (None, m) \<Rightarrow> self' = self
       | Inr (Some i, m) \<Rightarrow>
           if answered_by_action ev self i m
           then context_writes (ctx self') = context_writes (ctx self) \<and>
                current_context (ctx self') = current_context (ctx self)
           else context_writes (ctx self') = context_writes (ctx self) + 1 \<and>
                current_context (ctx self')
                  = (if truthy (context_set i) then context_set i else None)"
  proof (cases "classify_intent search self user_input")
    case (Inl e)
    with a show ?thesis
      by (simp add: get_response_def)
  next
    case (Inr p)
    obtain bi m where p: "p = (bi, m)"
      by (cases p) auto
    show ?thesis
    proof (cases bi)
      case None
      with a Inr p show ?thesis
        by (auto simp: get_response_def Let_def split: sum.splits)
    next
      case (Some i)
      with a Inr p
      have "intent_response (\<lambda>b. fill_template b now) ev rnd self i m = Inr (response, self')"
        by (simp add: get_response_def Let_def)
      from intent_response_writes [OF this] Inr p Some show ?thesis
        by simp
    qed
  qed
next
  assume a: "demo1_get_response search ev now rnd self user_input = Inr (response, self')"
  show "case demo1_classify_intent search self user_input of
         Inl e \<Rightarrow> False
       | Inr (None, m) \<Rightarrow> self' = self
       | Inr (Some i, m) \<Rightarrow>
           if answered_by_action ev self i m
           then context_writes (ctx self') = context_writes (ctx self) \<and>
                current_context (ctx self') = current_context (ctx self)
           else context_writes (ctx self') = context_writes (ctx self) + 1 \<and>
                current_context (ctx self')
                  = (if truthy (context_set i) then context_set i else None)"
  proof (cases "demo1_classify_intent search self user_input")
    case (Inl e)
    with a show ?thesis
      by (simp add: demo1_get_response_def)
  next
    case (Inr p)
    obtain bi m where p: "p = (bi, m)"
      by (cases p) auto
    show ?thesis
    proof (cases bi)
      case None
      with a Inr p show ?thesis
        by (auto simp: demo1_get_response_def Let_def split: sum.splits)
    next
      case (Some i)
      with a Inr p
      have "intent_response (\<lambda>b. demo1_fill_template b now) ev rnd self i m = Inr (response, self')"
        by (simp add: demo1_get_response_def Let_def)
      from intent_response_writes [OF this] Inr p Some show ?thesis
        by simp
    qed
  qed
qed

theorem get_response_context_writes_witness:
  "get_response lit_search sample_eval sample_words sample_now 0
     (sample_bot [jokes_intent, how_are_you_intent] None) ''How are you''
     = Inr (''I'm doing great, thanks for asking! How about you?'',
            (sample_bot [jokes_intent, how_are_you_intent] None)
              \<lparr>ctx := set_context ''asked_user_feeling''
                        (ctx (sample_bot [jokes_intent, how_are_you_intent] None))\<rparr>) \<and>
   context_writes (set_context ''asked_user_feeling''
                     (ctx (sample_bot [jokes_intent, how_are_you_intent] None))) = 1 \<and>
   get_response lit_search sample_eval sample_words sample_now 0
     (sample_bot [jokes_intent, how_are_you_intent] (Some ''asked_user_feeling''))
     ''tell me a joke''
     = Inr (''Why do programmers prefer dark mode?'',
            (sample_bot [jokes_intent, how_are_you_intent] (Some ''asked_user_feeling''))
              \<lparr>ctx := clear_context
                        (ctx (sample_bot [jokes_intent, how_are_you_intent]
                                (Some ''asked_user_feeling'')))\<rparr>) \<and>
   context_writes (clear_context
                     (ctx (sample_bot [jokes_intent, how_are_you_intent]
                             (Some ''asked_user_feeling'')))) = 1"
proof -
  let ?b = "sample_bot [jokes_intent, how_are_you_intent] None"
  let ?c = "sample_bot [jokes_intent, how_are_you_intent] (Some ''asked_user_feeling'')"
  let ?b' = "?b\<lparr>ctx := set_context ''asked_user_feeling'' (ctx ?b)\<rparr>"
  let ?c' = "?c\<lparr>ctx := clear_context (ctx ?c)\<rparr>"
  let ?r = "''I'm doing great, thanks for asking! How about you?''"
  let ?s = "''Why do programmers prefer dark mode?''"
  have 1: "get_response lit_search sample_eval sample_words sample_now 0 ?b
       ''How are you'' = Inr (?r, ?b')"
    by code_simp
  have 2: "get_response lit_search sample_eval sample_words sample_now 0 ?c
       ''tell me a joke'' = Inr (?s, ?c')"
    by code_simp
  have c1: "classify_intent lit_search ?b ''How are you''
      = Inr (Some how_are_you_intent,
             Some \<lparr>re_pattern = ''how are you'', group0 = ''how are you'', groups = [],
                   lastindex = None\<rparr>)"
    and c2: "classify_intent lit_search ?c ''tell me a joke''
      = Inr (Some jokes_intent,
             Some \<lparr>re_pattern = ''tell me a joke'', group0 = ''tell me a joke'', groups = [],
                   lastindex = None\<rparr>)"
    by code_simp+
  have f: "\<And>m. \<not> answered_by_action sample_eval ?b how_are_you_intent m"
      "\<And>m. \<not> answered_by_action sample_eval ?c jokes_intent m"
    by (simp_all add: answered_by_action_def how_are_you_intent_def jokes_intent_def)
  have w: "context_writes (ctx ?b) = 0" "context_writes (ctx ?c) = 0"
    by code_simp+
  from get_response_context_writes [of lit_search sample_eval sample_words sample_now 0 ?b
      "''How are you''" ?r ?b'] 1 c1 f w
  have 3: "context_writes (set_context ''asked_user_feeling'' (ctx ?b)) = 1"
    by simp
  from get_response_context_writes [of lit_search sample_eval sample_words sample_now 0 ?c
      "''tell me a joke''" ?s ?c'] 2 c2 f w
  have 4: "context_writes (clear_context (ctx ?c)) = 1"
    by simp
  from 1 2 3 4 show ?thesis
    by blast
qed

section \<open>Errors of the actions\<close>








section \<open>Properties of the template filler\<close>

lemma replace_skip_drop:
  "replace_skip old new k s = replace_skip old new 0 (drop k s)"
proof (induction s arbitrary: k)
  case Nil
  show ?case by simp
next
  case (Cons c cs)
  show ?case
  proof (cases k)
    case 0
    then show ?thesis by simp
  next
    case (Suc j)
    with Cons.IH [of j] show ?thesis by simp
  qed
qed

lemma replace_Nil [simp]: "replace [] old new = []"
  by (simp add: replace_def)

text \<open>The two equations of \<open>str.replace\<close>: at an occurrence, and elsewhere.\<close>

lemma replace_hit:
  assumes "old \<noteq> []" and "prefix old s"
  shows "replace s old new = new @ replace (drop (length old) s) old new"
proof (cases s)
  case Nil
  with assms show ?thesis by simp
next
  case (Cons c cs)
  from assms(1) have "drop (length old - 1) cs = drop (length old) (c # cs)"
    by (cases old) simp_all
  with assms Cons show ?thesis
    using replace_skip_drop [of old new "length old - 1" cs]
    by (simp add: replace_def)
qed

lemma replace_miss:
  assumes "\<not> prefix old (c # cs)"
  shows "replace (c # cs) old new = c # replace cs old new"
  using assms by (simp add: replace_def)

text \<open>A stretch of the string in which no occurrence starts is copied.\<close>

lemma replace_over:
  assumes "\<forall>j<length x. \<not> prefix old (drop j (x @ b))"
  shows "replace (x @ b) old new = x @ replace b old new"
  using assms
proof (induction x)
  case Nil
  show ?case by simp
next
  case (Cons c x)
  from Cons.prems have "\<not> prefix old ((c # x) @ b)"
    by force
  then have "replace ((c # x) @ b) old new = c # replace (x @ b) old new"
    by (simp add: replace_miss)
  moreover have "\<forall>j<length x. \<not> prefix old (drop j (x @ b))"
  proof (intro allI impI)
    fix j assume "j < length x"
    with Cons.prems have "\<not> prefix old (drop (Suc j) ((c # x) @ b))"
      by (metis Suc_less_eq length_Cons)
    then show "\<not> prefix old (drop j (x @ b))"
      by simp
  qed
  ultimately show ?case
    using Cons.IH by simp
qed

lemma replace_absent:
  assumes "\<forall>j<length s. \<not> prefix old (drop j s)"
  shows "replace s old new = s"
  using replace_over [of s old "[]" new] assms by simp

text \<open>Two placeholders that agree up to the closing brace have the same name.\<close>

lemma placeholder_name_unique:
  assumes "brace_free w" and "brace_free n" and "prefix (w @ ''}'') (n @ ''}'' @ b)"
  shows "w = n"
  using assms
proof (induction w arbitrary: n)
  case Nil
  then show ?case
    by (cases n) (auto simp: brace_free_def)
next
  case (Cons c w)
  show ?case
  proof (cases n)
    case Nil
    with Cons.prems show ?thesis
      by (auto simp: brace_free_def)
  next
    case (Cons d n')
    with Cons.prems have "c = d" and "prefix (w @ ''}'') (n' @ ''}'' @ b)"
      and "brace_free w" and "brace_free n'"
      by (auto simp: brace_free_def)
    with Cons.IH [of n'] Cons show ?thesis
      by simp
  qed
qed

text \<open>No key starts inside another placeholder.\<close>

lemma no_key_inside:
  assumes w: "brace_free w" and n: "brace_free n" and ne: "w \<noteq> n"
    and j: "j < length (placeholder n)"
  shows "\<not> prefix (placeholder w) (drop j (placeholder n @ b))"
proof (cases j)
  case 0
  show ?thesis
  proof
    assume "prefix (placeholder w) (drop j (placeholder n @ b))"
    with 0 have "prefix (w @ ''}'') (n @ ''}'' @ b)"
      by (simp add: placeholder_def)
    from placeholder_name_unique [OF w n this] ne show False
      by simp
  qed
next
  case (Suc i)
  define xs where "xs = n @ ''}''"
  have ph: "placeholder n = CHR ''{'' # xs"
    by (simp add: placeholder_def xs_def)
  from j Suc ph have i: "i < length xs"
    by simp
  have nb: "xs ! i \<noteq> CHR ''{''"
  proof (cases "i < length n")
    case True
    then have "xs ! i \<in> set n"
      by (simp add: xs_def nth_append)
    with n show ?thesis
      by (auto simp: brace_free_def)
  next
    case False
    with i have "xs ! i = CHR ''}''"
      by (simp add: xs_def nth_append)
    then show ?thesis
      by simp
  qed
  have eq: "drop j (placeholder n @ b) = xs ! i # (drop (Suc i) xs @ b)"
    using Suc i Cons_nth_drop_Suc [OF i] by (simp add: ph)
  show ?thesis
    unfolding eq using nb by (simp add: placeholder_def)
qed

text \<open>An occurrence of a key that starts before another placeholder ends before it.\<close>

lemma key_before:
  assumes w: "brace_free w" and n: "brace_free n" and ne: "w \<noteq> n"
    and p: "prefix (placeholder w) (a @ placeholder n @ b)"
  shows "prefix (placeholder w) a"
proof (rule ccontr)
  assume np: "\<not> prefix (placeholder w) a"
  from p obtain us where us: "placeholder w = a @ us" "prefix us (placeholder n @ b)"
    using np by (auto simp: prefix_append)
  from np us have "us \<noteq> []"
    by auto
  with us(2) have hd: "hd us = CHR ''{''"
    by (cases us) (auto simp: placeholder_def)
  show False
  proof (cases a)
    case Nil
    with us have "prefix (placeholder w) (drop 0 (placeholder n @ b))"
      by simp
    with no_key_inside [OF w n ne, of 0 b] show False
      by (simp add: placeholder_def)
  next
    case (Cons c a')
    with us(1) have "w @ ''}'' = a' @ us"
      by (simp add: placeholder_def)
    with \<open>us \<noteq> []\<close> have "hd us \<in> set (w @ ''}'')"
      by (metis hd_in_set in_set_conv_decomp Un_iff set_append)
    with hd w show False
      by (auto simp: brace_free_def)
  qed
qed

text \<open>Replacing a key leaves every other placeholder where it is.\<close>

lemma replace_around:
  assumes w: "brace_free w" and n: "brace_free n" and ne: "w \<noteq> n"
  shows "replace (a @ placeholder n @ b) (placeholder w) v
           = replace a (placeholder w) v @ placeholder n @ replace b (placeholder w) v"
proof (induction a rule: length_induct)
  case (1 a)
  let ?k = "placeholder w"
  have k: "?k \<noteq> []"
    by (simp add: placeholder_def)
  show ?case
  proof (cases a)
    case Nil
    from no_key_inside [OF w n ne]
    have "\<forall>j<length (placeholder n). \<not> prefix ?k (drop j (placeholder n @ b))"
      by blast
    from replace_over [OF this] Nil show ?thesis
      by simp
  next
    case (Cons c a')
    show ?thesis
    proof (cases "prefix ?k (a @ placeholder n @ b)")
      case True
      from key_before [OF w n ne True] have pa: "prefix ?k a" .
      then have len: "length ?k \<le> length a"
        by (rule prefix_length_le)
      from k have "length (drop (length ?k) a) < length a"
        using Cons by (cases ?k) simp_all
      with 1 have ih: "replace (drop (length ?k) a @ placeholder n @ b) ?k v
          = replace (drop (length ?k) a) ?k v @ placeholder n @ replace b ?k v"
        by blast
      from len have "drop (length ?k) (a @ placeholder n @ b) = drop (length ?k) a @ placeholder n @ b"
        by simp
      with replace_hit [OF k True, of v] replace_hit [OF k pa, of v] ih show ?thesis
        by simp
    next
      case False
      then have "\<not> prefix ?k a"
        by (metis prefix_prefix)
      with False Cons have "replace (a @ placeholder n @ b) ?k v
          = c # replace (a' @ placeholder n @ b) ?k v"
        and "replace a ?k v = c # replace a' ?k v"
        by (simp_all add: replace_miss)
      moreover from 1 Cons have "replace (a' @ placeholder n @ b) ?k v
          = replace a' ?k v @ placeholder n @ replace b ?k v"
        by simp
      ultimately show ?thesis
        by simp
    qed
  qed
qed

text \<open>
  The hypothesis on the two facts is an invariant: they are absent in a new conversation,
  and no action stores anything but a string under \<open>name\<close> or \<open>birthday\<close>.
\<close>

lemma str_or_absent_new: "str_or_absent new_context key"
  by (simp add: str_or_absent_def new_context_def)

lemma str_or_absent_put:
  "str_or_absent (ctx self) key \<Longrightarrow> k \<noteq> key \<or> (\<exists>s. v = Str s) \<Longrightarrow>
   str_or_absent (ctx (put_user_data k v self)) key"
  by (auto simp: str_or_absent_def put_user_data_def set_user_data_def update_conv')

lemma store_favorites_keeps_strings:
  assumes "store_favorites self t v = Inr s" and "str_or_absent (ctx self) key"
    and "key = ''name'' \<or> key = ''birthday''"
  shows "str_or_absent (ctx s) key"
proof -
  let ?t = "if t = ''band'' then ''music'' else t"
  from assms(1) obtain d where
    s: "s = put_user_data (''favorite_'' @ ?t) (Str v)
              (put_user_data ''favorites'' (StrDict (AList.update ?t v d)) self)"
    by (auto simp: store_favorites_def Let_def split: pyval.splits)
  from assms(3) have "''favorites'' \<noteq> key" and "''favorite_'' @ ?t \<noteq> key"
    by auto
  with assms(2) show ?thesis
    unfolding s by (intro str_or_absent_put) auto
qed

lemma run_action_keeps_strings:
  assumes "run_action ev a self match = Inr (res, s)" and "str_or_absent (ctx self) key"
    and "key = ''name'' \<or> key = ''birthday''"
  shows "str_or_absent (ctx s) key"
proof (cases a)
  case StoreName
  with assms show ?thesis
    by (auto simp: run_action_def store_name_action_def intro!: str_or_absent_put
        split: option.splits sum.splits if_splits bool.splits)
next
  case Calculate
  with assms show ?thesis
    by (auto simp: run_action_def)
next
  case StoreBirthday
  with assms show ?thesis
    by (auto simp: run_action_def store_birthday_action_def intro!: str_or_absent_put
        split: option.splits sum.splits if_splits bool.splits)
next
  case SaveNote
  with assms show ?thesis
    by (auto simp: run_action_def save_note_action_def intro!: str_or_absent_put
        split: option.splits sum.splits if_splits bool.splits pyval.splits)
next
  case ShowNotes
  with assms show ?thesis
    by (auto simp: run_action_def dest: show_notes_action_frame)
next
  case StoreFavorites
  with assms show ?thesis
    by (auto simp: run_action_def store_favorites_action_def Let_def
        intro!: str_or_absent_put dest: store_favorites_keeps_strings
        split: option.splits sum.splits if_splits bool.splits)
next
  case Demo1UserName
  with assms show ?thesis
    by (auto simp: run_action_def demo1_user_name_action_def intro!: str_or_absent_put
        split: option.splits sum.splits)
qed

lemma templated_response_keeps_strings:
  assumes "templated_response fill rnd s i = Inr (r, s')" and "str_or_absent (ctx s) key"
  shows "str_or_absent (ctx s') key"
  using assms
  by (auto simp: templated_response_def set_context_def clear_context_def str_or_absent_def
      split: sum.splits option.splits if_splits)

lemma intent_response_keeps_strings:
  assumes "intent_response fill ev rnd self i match = Inr (r, self')"
    and "str_or_absent (ctx self) key" and "key = ''name'' \<or> key = ''birthday''"
  shows "str_or_absent (ctx self') key"
proof (cases "action i")
  case None
  with assms(1) have "templated_response fill rnd self i = Inr (r, self')"
    by (simp add: intent_response_def)
  from templated_response_keeps_strings [OF this assms(2)] show ?thesis .
next
  case (Some a)
  show ?thesis
  proof (cases "run_action ev a self match")
    case (Inl e)
    with assms(1) Some show ?thesis
      by (simp add: intent_response_def)
  next
    case (Inr p)
    obtain res s where p: "p = (res, s)"
      by (cases p) auto
    from run_action_keeps_strings [of ev a self match res s key] Inr p assms(2,3)
    have s: "str_or_absent (ctx s) key"
      by simp
    from assms(1) Some Inr p
    have "self' = s \<or> templated_response fill rnd s i = Inr (r, self')"
      by (auto simp: intent_response_def split: option.splits if_splits sum.splits)
    with s templated_response_keeps_strings [of fill rnd s i r self' key] show ?thesis
      by blast
  qed
qed

lemma get_response_keeps_strings:
  assumes "get_response search ev cls now rnd self user_input = Inr (r, self')"
    and "str_or_absent (ctx self) key" and "key = ''name'' \<or> key = ''birthday''"
  shows "str_or_absent (ctx self') key"
proof -
  from assms(1) obtain bi m where c: "classify_intent search self user_input = Inr (bi, m)"
    by (cases "classify_intent search self user_input") (auto simp: get_response_def)
  show ?thesis
  proof (cases bi)
    case None
    with assms(1) c have "self' = self"
      by (auto simp: get_response_def Let_def split: sum.splits)
    with assms(2) show ?thesis
      by simp
  next
    case (Some i)
    with assms(1) c
    have "intent_response (\<lambda>b. fill_template b now) ev rnd self i m = Inr (r, self')"
      by (simp add: get_response_def Let_def)
    from intent_response_keeps_strings [OF this assms(2,3)] show ?thesis .
  qed
qed

lemma fill_loop_around:
  assumes "brace_free n"
    and "\<forall>kv\<in>set kvs. \<exists>w. fst kv = placeholder w \<and> brace_free w \<and> w \<noteq> n"
  shows "fill_loop (a @ placeholder n @ b) kvs =
           (case fill_loop a kvs of
              Inl e \<Rightarrow> Inl e
            | Inr a' \<Rightarrow>
                (case fill_loop b kvs of
                   Inl e \<Rightarrow> Inl e
                 | Inr b' \<Rightarrow> Inr (a' @ placeholder n @ b')))"
  using assms(2)
proof (induction kvs arbitrary: a b)
  case Nil
  show ?case by simp
next
  case (Cons kv kvs)
  from Cons.prems obtain w where w: "fst kv = placeholder w" "brace_free w" "w \<noteq> n"
    by auto
  from Cons.prems have rest: "\<forall>kv\<in>set kvs. \<exists>w. fst kv = placeholder w \<and> brace_free w \<and> w \<noteq> n"
    by simp
  show ?case
  proof (cases "snd kv")
    case (Str v)
    then have step: "fill_loop x (kv # kvs) = fill_loop (replace x (placeholder w) v) kvs" for x
      using w(1) by simp
    show ?thesis
      unfolding step replace_around [OF w(2) assms(1) w(3)]
      by (rule Cons.IH [OF rest])
  next
    case (StrList xs)
    then show ?thesis by simp
  next
    case (StrDict d)
    then show ?thesis by simp
  qed
qed

lemma get_user_data_default_fact:
  "str_or_absent c key \<Longrightarrow> get_user_data_default c key (Str d) = Str (fact_or c key d)"
  by (auto simp: str_or_absent_def get_user_data_default_def fact_or_def
      split: option.splits pyval.splits)

lemma replacements_keys:
  "\<forall>kv\<in>set (replacements self now). \<exists>w. fst kv = placeholder w \<and> brace_free w \<and> w \<in> set recognized"
  by (simp add: replacements_def placeholder_def brace_free_def recognized_def)

lemma demo1_replacements_keys:
  "\<forall>kv\<in>set (demo1_replacements self now).
     \<exists>w. fst kv = placeholder w \<and> brace_free w \<and> w \<in> set (butlast recognized)"
  by (simp add: demo1_replacements_def placeholder_def brace_free_def recognized_def)

text \<open>
  C8, as the claim states it, fails on Demo1, whose \<open>_fill_template\<close> knows no birthday:
  it returns the placeholder \<^verbatim>\<open>{user_birthday}\<close> as it is, where the claim has the remembered
  birthday or \<^verbatim>\<open>unknown\<close>, which is what Demo2 returns.
\<close>

theorem demo1_fill_template_birthday:
  "demo1_fill_template (sample_bot [] None) sample_now ''Born: {user_birthday}''
     = Inr ''Born: {user_birthday}'' \<and>
   fill_template (sample_bot [] None) sample_now ''Born: {user_birthday}''
     = Inr ''Born: unknown''"
  by code_simp

text \<open>
  C8, amended. For every template, \<open>_fill_template\<close> of Demo2 replaces, literally and one
  key after the other, every occurrence of the five placeholders: the name of the bot;
  the remembered name, or \<^verbatim>\<open>friend\<close>; the time as \<^verbatim>\<open>%I:%M %p\<close>; the date as
  \<^verbatim>\<open>%A, %B %d, %Y\<close>; the remembered birthday, or \<^verbatim>\<open>unknown\<close>. Any other placeholder, a
  name without braces between braces, stays where it is, and what stands before and after
  it is filled as it would be alone; a template in which none of the five occurs is
  returned as it is. With the bot name \<^verbatim>\<open>Bot\<close> the template \<^verbatim>\<open>Hi {bot_name}!\<close> gives
  \<^verbatim>\<open>Hi Bot!\<close>. \<open>_fill_template\<close> of Demo1 does the same with the first four placeholders
  and leaves \<^verbatim>\<open>{user_birthday}\<close> as it is. (The facts \<open>name\<close> and \<open>birthday\<close> are strings
  or absent, as the actions leave them.)
\<close>

theorem fill_template_substitution:
  fixes self :: chatbot and now :: datetime
  defines "user_name \<equiv> fact_or (ctx self) ''name'' ''friend''"
  defines "user_birthday \<equiv> fact_or (ctx self) ''birthday'' ''unknown''"
  defines "strings \<equiv> str_or_absent (ctx self) ''name'' \<and> str_or_absent (ctx self) ''birthday''"
  shows
  "(strings \<longrightarrow>
      fill_template self now template =
        Inr (replace (replace (replace (replace (replace template
               ''{bot_name}'' (bot_name self))
               ''{user_name}'' user_name)
               ''{current_time}'' (strftime_time now))
               ''{current_date}'' (strftime_date now))
               ''{user_birthday}'' user_birthday)) \<and>
   (brace_free n \<and> n \<notin> set recognized \<longrightarrow>
      fill_template self now (a @ placeholder n @ b) =
        (case fill_template self now a of
           Inl e \<Rightarrow> Inl e
         | Inr a' \<Rightarrow>
             (case fill_template self now b of
                Inl e \<Rightarrow> Inl e
              | Inr b' \<Rightarrow> Inr (a' @ placeholder n @ b')))) \<and>
   (strings \<and> (\<forall>w\<in>set recognized. \<not> sublist (placeholder w) template) \<longrightarrow>
      fill_template self now template = Inr template) \<and>
   (strings \<and> bot_name self = ''Bot'' \<longrightarrow>
      fill_template self now ''Hi {bot_name}!'' = Inr ''Hi Bot!'') \<and>
   (strings \<longrightarrow> fill_template self now ''{foo}'' = Inr ''{foo}'') \<and>
   (str_or_absent (ctx self) ''name'' \<longrightarrow>
      demo1_fill_template self now template =
        Inr (replace (replace (replace (replace template
               ''{bot_name}'' (bot_name self))
               ''{user_name}'' user_name)
               ''{current_time}'' (strftime_time now))
               ''{current_date}'' (strftime_date now))) \<and>
   (brace_free n \<and> n \<notin> set (butlast recognized) \<longrightarrow>
      demo1_fill_template self now (a @ placeholder n @ b) =
        (case demo1_fill_template self now a of
           Inl e \<Rightarrow> Inl e
         | Inr a' \<Rightarrow>
             (case demo1_fill_template self now b of
                Inl e \<Rightarrow> Inl e
              | Inr b' \<Rightarrow> Inr (a' @ placeholder n @ b'))))"
proof -
  have full: "strings \<longrightarrow>
      fill_template self now template =
        Inr (replace (replace (replace (replace (replace template
               ''{bot_name}'' (bot_name self))
               ''{user_name}'' user_name)
               ''{current_time}'' (strftime_time now))
               ''{current_date}'' (strftime_date now))
               ''{user_birthday}'' user_birthday)" for template
    by (simp add: strings_def user_name_def user_birthday_def fill_template_def replacements_def
        get_user_data_default_fact)
  have around: "brace_free n \<and> n \<notin> set recognized \<longrightarrow>
      fill_template self now (a @ placeholder n @ b) =
        (case fill_template self now a of
           Inl e \<Rightarrow> Inl e
         | Inr a' \<Rightarrow>
             (case fill_template self now b of
                Inl e \<Rightarrow> Inl e
              | Inr b' \<Rightarrow> Inr (a' @ placeholder n @ b')))" for n a b
  proof
    assume n: "brace_free n \<and> n \<notin> set recognized"
    with replacements_keys [of self now]
    have "\<forall>kv\<in>set (replacements self now). \<exists>w. fst kv = placeholder w \<and> brace_free w \<and> w \<noteq> n"
      by metis
    from fill_loop_around [of n "replacements self now" a b, OF _ this] n
    show "fill_template self now (a @ placeholder n @ b) =
        (case fill_template self now a of
           Inl e \<Rightarrow> Inl e
         | Inr a' \<Rightarrow>
             (case fill_template self now b of
                Inl e \<Rightarrow> Inl e
              | Inr b' \<Rightarrow> Inr (a' @ placeholder n @ b')))"
      unfolding fill_template_def by blast
  qed
  have absent: "strings \<and> (\<forall>w\<in>set recognized. \<not> sublist (placeholder w) template) \<longrightarrow>
      fill_template self now template = Inr template"
  proof
    assume a: "strings \<and> (\<forall>w\<in>set recognized. \<not> sublist (placeholder w) template)"
    have none: "replace template (placeholder w) v = template" if "w \<in> set recognized" for w v
    proof (rule replace_absent, intro allI impI)
      fix j assume "j < length template"
      show "\<not> prefix (placeholder w) (drop j template)"
      proof
        assume "prefix (placeholder w) (drop j template)"
        then obtain zs where "drop j template = placeholder w @ zs"
          by (auto simp: prefix_def)
        then have "template = take j template @ placeholder w @ zs"
          by (metis append_take_drop_id)
        then have "sublist (placeholder w) template"
          unfolding sublist_def by blast
        with a that show False
          by blast
      qed
    qed
    from none [of "''bot_name''"] none [of "''user_name''"] none [of "''current_time''"]
      none [of "''current_date''"] none [of "''user_birthday''"] full [of template] a
    show "fill_template self now template = Inr template"
      by (simp add: recognized_def placeholder_def)
  qed
  have hi: "strings \<and> bot_name self = ''Bot'' \<longrightarrow>
      fill_template self now ''Hi {bot_name}!'' = Inr ''Hi Bot!''"
    using full [of "''Hi {bot_name}!''"] by (auto simp: replace_def)
  have foo: "strings \<longrightarrow> fill_template self now ''{foo}'' = Inr ''{foo}''"
    using full [of "''{foo}''"] by (auto simp: replace_def)
  have full1: "str_or_absent (ctx self) ''name'' \<longrightarrow>
      demo1_fill_template self now template =
        Inr (replace (replace (replace (replace template
               ''{bot_name}'' (bot_name self))
               ''{user_name}'' user_name)
               ''{current_time}'' (strftime_time now))
               ''{current_date}'' (strftime_date now))"
    by (simp add: user_name_def demo1_fill_template_def demo1_replacements_def
        get_user_data_default_fact)
  have around1: "brace_free n \<and> n \<notin> set (butlast recognized) \<longrightarrow>
      demo1_fill_template self now (a @ placeholder n @ b) =
        (case demo1_fill_template self now a of
           Inl e \<Rightarrow> Inl e
         | Inr a' \<Rightarrow>
             (case demo1_fill_template self now b of
                Inl e \<Rightarrow> Inl e
              | Inr b' \<Rightarrow> Inr (a' @ placeholder n @ b')))"
  proof
    assume n: "brace_free n \<and> n \<notin> set (butlast recognized)"
    with demo1_replacements_keys [of self now]
    have "\<forall>kv\<in>set (demo1_replacements self now).
            \<exists>w. fst kv = placeholder w \<and> brace_free w \<and> w \<noteq> n"
      by metis
    from fill_loop_around [of n "demo1_replacements self now" a b, OF _ this] n
    show "demo1_fill_template self now (a @ placeholder n @ b) =
        (case demo1_fill_template self now a of
           Inl e \<Rightarrow> Inl e
         | Inr a' \<Rightarrow>
             (case demo1_fill_template self now b of
                Inl e \<Rightarrow> Inl e
              | Inr b' \<Rightarrow> Inr (a' @ placeholder n @ b')))"
      unfolding demo1_fill_template_def by blast
  qed
  from full [of template] around [of n a b] absent hi foo full1 around1 show ?thesis
    by blast
qed

theorem fill_template_substitution_witness:
  "fill_template (sample_bot [] None) sample_now ''Hi {bot_name}!'' = Inr ''Hi Bot!'' \<and>
   fill_template (sample_bot [] None) sample_now
     ''{user_name}, it is {current_time} on {current_date}. {foo} {user_birthday}''
     = Inr ''friend, it is 02:05 PM on Monday, January 15, 2024. {foo} unknown'' \<and>
   fill_template
     (put_user_data ''birthday'' (Str ''May 5'')
        (put_user_data ''name'' (Str ''Alice'') (sample_bot [] None)))
     sample_now ''{user_name} {user_birthday} {Bot_Name}''
     = Inr ''Alice May 5 {Bot_Name}'' \<and>
   fill_template (sample_bot [] None) sample_now ''no placeholder here''
     = Inr ''no placeholder here'' \<and>
   demo1_fill_template (sample_bot [] None) sample_now ''{user_name} {user_birthday}''
     = Inr ''friend {user_birthday}''"
proof -
  let ?b = "sample_bot [] None"
  let ?c = "put_user_data ''birthday'' (Str ''May 5'') (put_user_data ''name'' (Str ''Alice'') ?b)"
  let ?t = "''{user_name}, it is {current_time} on {current_date}. {foo} {user_birthday}''"
  have sb: "str_or_absent (ctx ?b) ''name''" "str_or_absent (ctx ?b) ''birthday''"
    and sc: "str_or_absent (ctx ?c) ''name''" "str_or_absent (ctx ?c) ''birthday''"
    and bn: "bot_name ?b = ''Bot''"
    and ab: "\<forall>w\<in>set recognized. \<not> sublist (placeholder w) ''no placeholder here''"
    by code_simp+
  have r2: "replace (replace (replace (replace (replace ?t
               ''{bot_name}'' (bot_name ?b))
               ''{user_name}'' (fact_or (ctx ?b) ''name'' ''friend''))
               ''{current_time}'' (strftime_time sample_now))
               ''{current_date}'' (strftime_date sample_now))
               ''{user_birthday}'' (fact_or (ctx ?b) ''birthday'' ''unknown'')
       = ''friend, it is 02:05 PM on Monday, January 15, 2024. {foo} unknown''"
    by code_simp
  have r3: "replace (replace (replace (replace (replace ''{user_name} {user_birthday} {Bot_Name}''
               ''{bot_name}'' (bot_name ?c))
               ''{user_name}'' (fact_or (ctx ?c) ''name'' ''friend''))
               ''{current_time}'' (strftime_time sample_now))
               ''{current_date}'' (strftime_date sample_now))
               ''{user_birthday}'' (fact_or (ctx ?c) ''birthday'' ''unknown'')
       = ''Alice May 5 {Bot_Name}''"
    by code_simp
  have r5: "replace (replace (replace (replace ''{user_name} {user_birthday}''
               ''{bot_name}'' (bot_name ?b))
               ''{user_name}'' (fact_or (ctx ?b) ''name'' ''friend''))
               ''{current_time}'' (strftime_time sample_now))
               ''{current_date}'' (strftime_date sample_now)
       = ''friend {user_birthday}''"
    by code_simp
  from fill_template_substitution [of ?b sample_now "''Hi {bot_name}!''"] sb bn
  have 1: "fill_template ?b sample_now ''Hi {bot_name}!'' = Inr ''Hi Bot!''"
    by blast
  from fill_template_substitution [of ?b sample_now ?t] sb r2
  have 2: "fill_template ?b sample_now ?t
     = Inr ''friend, it is 02:05 PM on Monday, January 15, 2024. {foo} unknown''"
    by simp
  from fill_template_substitution [of ?c sample_now "''{user_name} {user_birthday} {Bot_Name}''"]
    sc r3
  have 3: "fill_template ?c sample_now ''{user_name} {user_birthday} {Bot_Name}''
     = Inr ''Alice May 5 {Bot_Name}''"
    by simp
  from fill_template_substitution [of ?b sample_now "''no placeholder here''"] sb ab
  have 4: "fill_template ?b sample_now ''no placeholder here'' = Inr ''no placeholder here''"
    by blast
  from fill_template_substitution [of ?b sample_now "''{user_name} {user_birthday}''"] sb r5
  have 5: "demo1_fill_template ?b sample_now ''{user_name} {user_birthday}''
     = Inr ''friend {user_birthday}''"
    by simp
  from 1 2 3 4 5 show ?thesis
    by blast
qed

end
